theory Spec2Isabelle
  imports Main "HOL-Library.Word"
begin

unbundle bit_operations_syntax

section \<open>Bytes, memory and faults\<close>

text \<open>
  The destination of every operation of \<^verbatim>\<open>ArgDestination\<close> is the register image of a
  transition block: byte-addressed memory. Addresses (\<^verbatim>\<open>TADDR\<close>) and the C \<^verbatim>\<open>int\<close>
  offsets are mathematical integers; every target of the file is little-endian.
  The source of a copy (\<^verbatim>\<open>void *src\<close>) is a separate read-only buffer of bytes with a
  cursor into it. The checked build is modelled: \<^verbatim>\<open>_ASSERTE\<close> halts and \<^verbatim>\<open>INDEBUG\<close>
  code runs. A run either returns or stops with a fault.
\<close>

type_synonym byte = "8 word"
type_synonym UINT32 = "32 word"
type_synonym UINT64 = "64 word"
type_synonym TADDR = int
type_synonym memory = "TADDR \<Rightarrow> byte"

datatype fault =
    AssertionFailed    \<comment> \<open>an \<^verbatim>\<open>_ASSERTE\<close> whose condition is false\<close>
  | NullReference      \<comment> \<open>\<^verbatim>\<open>m_argLocDescForStructInRegs\<close> dereferenced while NULL\<close>
  | SourceOverrun      \<comment> \<open>a read that leaves the source buffer\<close>
  | AccessViolation    \<comment> \<open>an array index below zero, or a negative \<^verbatim>\<open>memcpy\<close> length\<close>

fun word_of_bytes :: "byte list \<Rightarrow> 'a::len word" where
  "word_of_bytes [] = 0"
| "word_of_bytes (b # bs) = ucast b OR push_bit 8 (word_of_bytes bs)"

fun bytes_of_word :: "nat \<Rightarrow> 'a::len word \<Rightarrow> byte list" where
  "bytes_of_word 0 w = []"
| "bytes_of_word (Suc n) w = ucast w # bytes_of_word n (drop_bit 8 w)"

definition read_mem :: "memory \<Rightarrow> TADDR \<Rightarrow> nat \<Rightarrow> byte list" where
  "read_mem mem a n = map (\<lambda>k. mem (a + int k)) [0..<n]"

definition write_mem :: "memory \<Rightarrow> TADDR \<Rightarrow> byte list \<Rightarrow> memory" where
  "write_mem mem a bs =
     (\<lambda>x. if a \<le> x \<and> x < a + int (length bs) then bs ! nat (x - a) else mem x)"

text \<open>
  \<^verbatim>\<open>n\<close> bytes of the source buffer at cursor \<^verbatim>\<open>pos\<close>. A negative length is what
  \<^verbatim>\<open>memcpyNoGCRefs\<close> receives as a \<^verbatim>\<open>size_t\<close> above \<^verbatim>\<open>2^63\<close>: no buffer holds it.
\<close>

definition read_src :: "byte list \<Rightarrow> int \<Rightarrow> int \<Rightarrow> fault + byte list" where
  "read_src src pos n =
     (if n < 0 then Inl AccessViolation
      else if 0 \<le> pos \<and> pos + n \<le> int (length src)
      then Inr (take (nat n) (drop (nat pos) src))
      else Inl SourceOverrun)"

definition load_UINT32 :: "byte list \<Rightarrow> int \<Rightarrow> fault + UINT32" where
  "load_UINT32 src pos =
     (case read_src src pos 4 of Inl e \<Rightarrow> Inl e | Inr bs \<Rightarrow> Inr (word_of_bytes bs))"

definition load_UINT64 :: "byte list \<Rightarrow> int \<Rightarrow> fault + UINT64" where
  "load_UINT64 src pos =
     (case read_src src pos 8 of Inl e \<Rightarrow> Inl e | Inr bs \<Rightarrow> Inr (word_of_bytes bs))"

definition store_UINT32 :: "memory \<Rightarrow> TADDR \<Rightarrow> UINT32 \<Rightarrow> memory" where
  "store_UINT32 mem a w = write_mem mem a (bytes_of_word 4 w)"

definition store_UINT64 :: "memory \<Rightarrow> TADDR \<Rightarrow> UINT64 \<Rightarrow> memory" where
  "store_UINT64 mem a w = write_mem mem a (bytes_of_word 8 w)"

definition fetch_UINT32 :: "memory \<Rightarrow> TADDR \<Rightarrow> UINT32" where
  "fetch_UINT32 mem a = word_of_bytes (read_mem mem a 4)"

definition fetch_UINT64 :: "memory \<Rightarrow> TADDR \<Rightarrow> UINT64" where
  "fetch_UINT64 mem a = word_of_bytes (read_mem mem a 8)"

text \<open>C's \<^verbatim>\<open>/\<close> on \<^verbatim>\<open>int\<close> truncates towards zero.\<close>

definition c_div :: "int \<Rightarrow> int \<Rightarrow> int" where
  "c_div a b = sgn a * sgn b * (\<bar>a\<bar> div \<bar>b\<bar>)"

section \<open>The data model\<close>

datatype SystemVClassificationType =
    SystemVClassificationTypeInteger
  | SystemVClassificationTypeIntegerReference
  | SystemVClassificationTypeIntegerByRef
  | SystemVClassificationTypeSSE
  | SystemVClassificationTypeOther   \<comment> \<open>every enumerator the file does not name\<close>

text \<open>
  Modelled from the spec: the declaration of \<^verbatim>\<open>EEClass\<close> is not among the sources. The
  eightbyte layout is an ordered sequence of units tagged with a classification and a size
  in bytes; \<^verbatim>\<open>GetNumberEightBytes\<close>, \<^verbatim>\<open>GetEightByteSize\<close> and
  \<^verbatim>\<open>GetEightByteClassification\<close> read it.
\<close>

record eightByte =
  classification :: SystemVClassificationType
  sizeInBytes :: nat

record EEClass =
  m_eightBytes :: "eightByte list"

definition GetNumberEightBytes :: "EEClass \<Rightarrow> nat" where
  "GetNumberEightBytes eeClass = length (m_eightBytes eeClass)"

definition GetEightByteSize :: "EEClass \<Rightarrow> nat \<Rightarrow> int" where
  "GetEightByteSize eeClass i = int (sizeInBytes (m_eightBytes eeClass ! i))"

definition GetEightByteClassification :: "EEClass \<Rightarrow> nat \<Rightarrow> SystemVClassificationType" where
  "GetEightByteClassification eeClass i = classification (m_eightBytes eeClass ! i)"

text \<open>
  Modelled from the spec: \<^verbatim>\<open>FpStructInRegistersInfo\<close> and the \<^verbatim>\<open>FpStruct\<close> flags are
  not among the sources. Up to two sub-fields, each with a byte offset and a size class
  (the binary logarithm of its size), and the shape flags, of which the code tests
  unions (\<^verbatim>\<open>info.flags & (FloatInt | IntFloat)\<close>).
\<close>

datatype FpStruct_Flags = OnlyOne | BothFloat | FloatInt | IntFloat

record FpStructInRegistersInfo =
  flags :: "FpStruct_Flags set"
  offset1st :: nat
  offset2nd :: nat
  SizeShift1st :: nat
  SizeShift2nd :: nat


text \<open>The fields of \<^verbatim>\<open>ArgLocDesc\<close> that the file reads.\<close>

record ArgLocDesc =
  m_idxFloatReg :: int
  m_cFloatReg :: int
  m_idxGenReg :: int
  m_cGenReg :: int
  m_hfaFieldSize :: int
  m_eeClass :: "EEClass option"
  m_structFields :: FpStructInRegistersInfo

text \<open>
  The constants and functions of \<^verbatim>\<open>TransitionBlock\<close>, the macro
  \<^verbatim>\<open>CLR_SYSTEMV_MAX_EIGHTBYTES_COUNT_TO_PASS_IN_REGISTERS\<close> and the flag
  \<^verbatim>\<open>GC_CALL_INTERIOR\<close> are declared outside the file: they are parameters.
\<close>

record platform =
  StructInRegsOffset :: int
  GetOffsetOfArgumentRegisters :: int
  GetOffsetOfFloatArgumentRegisters :: int
  IsFloatArgumentRegisterOffset :: "int \<Rightarrow> bool"
  CLR_SYSTEMV_MAX_EIGHTBYTES_COUNT_TO_PASS_IN_REGISTERS :: nat
  GC_CALL_INTERIOR :: UINT32

datatype target = UNIX_AMD64_ABI | TARGET_ARM64 | TARGET_LOONGARCH64 | TARGET_RISCV64 | TARGET_OTHER

record ArgDestination =
  m_base :: TADDR
  m_offset :: int
  m_argLocDescForStructInRegs :: "ArgLocDesc option"

section \<open>Construction and addressing\<close>

definition ArgDestination_ctor ::
  "target \<Rightarrow> platform \<Rightarrow> TADDR \<Rightarrow> int \<Rightarrow> ArgLocDesc option \<Rightarrow> fault + ArgDestination" where
  "ArgDestination_ctor tgt tb base offset argLocDescForStructInRegs =
     (let this = \<lparr>m_base = base, m_offset = offset,
                  m_argLocDescForStructInRegs = argLocDescForStructInRegs\<rparr>
      in case tgt of
           UNIX_AMD64_ABI \<Rightarrow>
             if argLocDescForStructInRegs \<noteq> None \<or> offset \<noteq> StructInRegsOffset tb
             then Inr this else Inl AssertionFailed
         | TARGET_ARM64 \<Rightarrow> Inr this
         | TARGET_LOONGARCH64 \<Rightarrow> Inr this
         | TARGET_RISCV64 \<Rightarrow> Inr this
         | TARGET_OTHER \<Rightarrow>
             if argLocDescForStructInRegs = None then Inr this else Inl AssertionFailed)"

definition GetDestinationAddress :: "ArgDestination \<Rightarrow> TADDR" where
  "GetDestinationAddress this = m_base this + m_offset this"

definition IsIsFloatArgumentRegister :: "platform \<Rightarrow> ArgDestination \<Rightarrow> bool" where
  "IsIsFloatArgumentRegister tb this = IsFloatArgumentRegisterOffset tb (m_offset this)"

section \<open>TARGET_ARM64: homogeneous floating aggregates\<close>

definition IsHFA :: "ArgDestination \<Rightarrow> bool" where
  "IsHFA this \<longleftrightarrow> m_argLocDescForStructInRegs this \<noteq> None"

text \<open>
  The body of the \<^verbatim>\<open>for\<close> loop of \<^verbatim>\<open>CopyHFAStructToRegister\<close>, once per remaining
  register: \<^verbatim>\<open>pos\<close> is the cursor \<^verbatim>\<open>src\<close>, \<^verbatim>\<open>dest\<close> the cursor \<^verbatim>\<open>dest\<close>.
\<close>

fun CopyHFAStructToRegister_loop ::
  "nat \<Rightarrow> int \<Rightarrow> byte list \<Rightarrow> int \<Rightarrow> TADDR \<Rightarrow> memory \<Rightarrow> fault + memory" where
  "CopyHFAStructToRegister_loop 0 hfaFieldSize src pos dest mem = Inr mem"
| "CopyHFAStructToRegister_loop (Suc n) hfaFieldSize src pos dest mem =
     (case (if hfaFieldSize = 4
            then (case load_UINT32 src pos of Inl e \<Rightarrow> Inl e | Inr v \<Rightarrow> Inr (ucast v))
            else load_UINT64 src pos) of
        Inl e \<Rightarrow> Inl e
      | Inr val \<Rightarrow>
          (case (if hfaFieldSize = 16 then load_UINT64 src (pos + 8) else Inr 0) of
             Inl e \<Rightarrow> Inl e
           | Inr upper \<Rightarrow>
               CopyHFAStructToRegister_loop n hfaFieldSize src (pos + hfaFieldSize) (dest + 16)
                 (store_UINT64 (store_UINT64 mem dest val) (dest + 8) upper)))"

definition CopyHFAStructToRegister ::
  "ArgDestination \<Rightarrow> byte list \<Rightarrow> int \<Rightarrow> memory \<Rightarrow> fault + memory" where
  "CopyHFAStructToRegister this src fieldBytes mem =
     (case m_argLocDescForStructInRegs this of
        None \<Rightarrow> Inl NullReference
      | Some argLocDesc \<Rightarrow>
          CopyHFAStructToRegister_loop (nat (m_cFloatReg argLocDesc)) (m_hfaFieldSize argLocDesc)
            src 0 (GetDestinationAddress this) mem)"

section \<open>TARGET_LOONGARCH64 and TARGET_RISCV64: split hardware-floating composites\<close>

definition IsStructPassedInRegs_FpStruct :: "ArgDestination \<Rightarrow> bool" where
  "IsStructPassedInRegs_FpStruct this \<longleftrightarrow> m_argLocDescForStructInRegs this \<noteq> None"





definition CopySingleFloatToRegister ::
  "platform \<Rightarrow> ArgDestination \<Rightarrow> byte list \<Rightarrow> memory \<Rightarrow> fault + memory" where
  "CopySingleFloatToRegister tb this src mem =
     (let dest = GetDestinationAddress this in
      case load_UINT32 src 0 of
        Inl e \<Rightarrow> Inl e
      | Inr val \<Rightarrow>
          if IsFloatArgumentRegisterOffset tb (m_offset this)
          then Inr (store_UINT64 mem dest (0xffffffff00000000 OR ucast val))
          else Inr (store_UINT32 mem dest val))"

section \<open>UNIX_AMD64_ABI: composites classified by eightbytes\<close>

definition IsStructPassedInRegs :: "platform \<Rightarrow> ArgDestination \<Rightarrow> bool" where
  "IsStructPassedInRegs tb this \<longleftrightarrow> m_offset this = StructInRegsOffset tb"

definition GetStructFloatRegDestinationAddress :: "platform \<Rightarrow> ArgDestination \<Rightarrow> fault + TADDR" where
  "GetStructFloatRegDestinationAddress tb this =
     (if \<not> IsStructPassedInRegs tb this then Inl AssertionFailed
      else case m_argLocDescForStructInRegs this of
             None \<Rightarrow> Inl NullReference
           | Some argLocDesc \<Rightarrow>
               Inr (m_base this +
                    (GetOffsetOfFloatArgumentRegisters tb + m_idxFloatReg argLocDesc * 16)))"

definition GetStructGenRegDestinationAddress :: "platform \<Rightarrow> ArgDestination \<Rightarrow> fault + TADDR" where
  "GetStructGenRegDestinationAddress tb this =
     (if \<not> IsStructPassedInRegs tb this then Inl AssertionFailed
      else case m_argLocDescForStructInRegs this of
             None \<Rightarrow> Inl NullReference
           | Some argLocDesc \<Rightarrow>
               Inr (m_base this + (GetOffsetOfArgumentRegisters tb + m_idxGenReg argLocDesc * 8)))"

text \<open>
  One pass of the loop body of \<^verbatim>\<open>CopyStructToRegisters\<close>, after the size of the
  eightbyte has been adjusted: the new \<^verbatim>\<open>genRegDest\<close>, \<^verbatim>\<open>floatRegDest\<close> and memory.
\<close>

definition copy_eightByte ::
  "SystemVClassificationType \<Rightarrow> int \<Rightarrow> byte list \<Rightarrow> int \<Rightarrow> TADDR \<Rightarrow> TADDR \<Rightarrow> int \<Rightarrow> memory
     \<Rightarrow> fault + (TADDR \<times> TADDR \<times> memory)" where
  "copy_eightByte eightByteClassification eightByteSize src pos genRegDest floatRegDest
       remainingBytes mem =
     (if \<not> remainingBytes \<ge> eightByteSize then Inl AssertionFailed
      else if eightByteClassification = SystemVClassificationTypeSSE then
        (if eightByteSize = 8 then
           (case load_UINT64 src pos of
              Inl e \<Rightarrow> Inl e
            | Inr v \<Rightarrow> Inr (genRegDest, floatRegDest + 16, store_UINT64 mem floatRegDest v))
         else if eightByteSize \<noteq> 4 then Inl AssertionFailed
         else
           (case load_UINT32 src pos of
              Inl e \<Rightarrow> Inl e
            | Inr v \<Rightarrow> Inr (genRegDest, floatRegDest + 16, store_UINT32 mem floatRegDest v)))
      else
        (if eightByteSize = 8 then
           (if \<not> (eightByteClassification = SystemVClassificationTypeInteger \<or>
                   eightByteClassification = SystemVClassificationTypeIntegerReference \<or>
                   eightByteClassification = SystemVClassificationTypeIntegerByRef)
            then Inl AssertionFailed
            else if \<not> 8 dvd genRegDest then Inl AssertionFailed
            else
              (case load_UINT64 src pos of
                 Inl e \<Rightarrow> Inl e
               | Inr v \<Rightarrow> Inr (genRegDest + eightByteSize, floatRegDest,
                               store_UINT64 mem genRegDest v)))
         else if eightByteClassification \<noteq> SystemVClassificationTypeInteger
           then Inl AssertionFailed
         else
           (case read_src src pos eightByteSize of
              Inl e \<Rightarrow> Inl e
            | Inr bs \<Rightarrow> Inr (genRegDest + eightByteSize, floatRegDest,
                             write_mem mem genRegDest bs))))"

function CopyStructToRegisters_loop ::
  "EEClass \<Rightarrow> byte list \<Rightarrow> nat \<Rightarrow> TADDR \<Rightarrow> TADDR \<Rightarrow> int \<Rightarrow> int \<Rightarrow> int \<Rightarrow> memory
     \<Rightarrow> fault + memory" where
  "CopyStructToRegisters_loop eeClass src i genRegDest floatRegDest pos remainingBytes destOffset mem =
     (if i < GetNumberEightBytes eeClass then
        (case copy_eightByte (GetEightByteClassification eeClass i)
                (GetEightByteSize eeClass i - (destOffset AND 7))
                src pos genRegDest floatRegDest remainingBytes mem of
           Inl e \<Rightarrow> Inl e
         | Inr (genRegDest', floatRegDest', mem') \<Rightarrow>
             CopyStructToRegisters_loop eeClass src (Suc i) genRegDest' floatRegDest'
               (pos + (GetEightByteSize eeClass i - (destOffset AND 7)))
               (remainingBytes - (GetEightByteSize eeClass i - (destOffset AND 7)))
               0 mem')
      else if remainingBytes = 0 then Inr mem else Inl AssertionFailed)"
  by pat_completeness auto
termination
  by (relation "measure (\<lambda>(eeClass, src, i, rest). GetNumberEightBytes eeClass - i)") auto

declare CopyStructToRegisters_loop.simps [simp del]

text \<open>
  The loop starts at \<^verbatim>\<open>i = destOffset / 8\<close>; an index below zero reads before the
  arrays of the class.
\<close>

definition CopyStructToRegisters ::
  "platform \<Rightarrow> ArgDestination \<Rightarrow> byte list \<Rightarrow> int \<Rightarrow> int \<Rightarrow> memory \<Rightarrow> fault + memory" where
  "CopyStructToRegisters tb this src fieldBytes destOffset mem =
     (if \<not> IsStructPassedInRegs tb this then Inl AssertionFailed
      else case GetStructGenRegDestinationAddress tb this of
        Inl e \<Rightarrow> Inl e
      | Inr genRegBase \<Rightarrow>
      (case GetStructFloatRegDestinationAddress tb this of
        Inl e \<Rightarrow> Inl e
      | Inr floatRegDest \<Rightarrow>
      (case m_argLocDescForStructInRegs this of
        None \<Rightarrow> Inl NullReference
      | Some argLocDesc \<Rightarrow>
      (case m_eeClass argLocDesc of
        None \<Rightarrow> Inl AssertionFailed
      | Some eeClass \<Rightarrow>
          if c_div destOffset 8 < 0 then Inl AccessViolation
          else CopyStructToRegisters_loop eeClass src (nat (c_div destOffset 8))
                 (genRegBase + destOffset) floatRegDest 0 fieldBytes destOffset mem))))"

text \<open>
  \<^verbatim>\<open>sizeof(zeros)\<close> is eight times the length of the array of \<^verbatim>\<open>long long\<close>;
  \<^verbatim>\<open>(size_t)fieldBytes\<close> wraps a negative size round.
\<close>

definition ZeroStructInRegisters ::
  "platform \<Rightarrow> ArgDestination \<Rightarrow> int \<Rightarrow> memory \<Rightarrow> fault + memory" where
  "ZeroStructInRegisters tb this fieldBytes mem =
     (let zeros = replicate (8 * CLR_SYSTEMV_MAX_EIGHTBYTES_COUNT_TO_PASS_IN_REGISTERS tb) (0 :: byte)
      in if \<not> int (length zeros) \<ge> fieldBytes mod 2 ^ 64 then Inl AssertionFailed
         else CopyStructToRegisters tb this zeros fieldBytes 0 mem)"

text \<open>
  The promotion callback acts on a state of the collector's own (the register image and
  the heap with it): it is a parameter, and so is the scan context.
\<close>

type_synonym ('sc, 'g) promote_func = "TADDR \<Rightarrow> 'sc \<Rightarrow> UINT32 \<Rightarrow> 'g \<Rightarrow> 'g"

definition report_eightByte ::
  "platform \<Rightarrow> ('sc, 'g) promote_func \<Rightarrow> 'sc \<Rightarrow> SystemVClassificationType \<Rightarrow> int \<Rightarrow> TADDR \<Rightarrow> int
     \<Rightarrow> 'g \<Rightarrow> fault + (TADDR \<times> 'g)" where
  "report_eightByte tb fn sc eightByteClassification eightByteSize genRegDest remainingBytes g =
     (if \<not> remainingBytes \<ge> eightByteSize then Inl AssertionFailed
      else if eightByteClassification \<noteq> SystemVClassificationTypeSSE then
        (if eightByteClassification = SystemVClassificationTypeIntegerReference \<or>
            eightByteClassification = SystemVClassificationTypeIntegerByRef
         then
           (if eightByteSize \<noteq> 8 then Inl AssertionFailed
            else if \<not> 8 dvd genRegDest then Inl AssertionFailed
            else Inr (genRegDest + eightByteSize,
                      fn genRegDest sc
                        (if eightByteClassification = SystemVClassificationTypeIntegerByRef
                         then GC_CALL_INTERIOR tb else 0) g))
         else Inr (genRegDest + eightByteSize, g))
      else Inr (genRegDest, g))"

function ReportPointersFromStructInRegisters_loop ::
  "platform \<Rightarrow> EEClass \<Rightarrow> ('sc, 'g) promote_func \<Rightarrow> 'sc \<Rightarrow> nat \<Rightarrow> TADDR \<Rightarrow> int \<Rightarrow> 'g \<Rightarrow> fault + 'g" where
  "ReportPointersFromStructInRegisters_loop tb eeClass fn sc i genRegDest remainingBytes g =
     (if i < GetNumberEightBytes eeClass then
        (case report_eightByte tb fn sc (GetEightByteClassification eeClass i)
                (GetEightByteSize eeClass i) genRegDest remainingBytes g of
           Inl e \<Rightarrow> Inl e
         | Inr (genRegDest', g') \<Rightarrow>
             ReportPointersFromStructInRegisters_loop tb eeClass fn sc (Suc i) genRegDest'
               (remainingBytes - GetEightByteSize eeClass i) g')
      else if remainingBytes = 0 then Inr g else Inl AssertionFailed)"
  by pat_completeness auto
termination
  by (relation "measure (\<lambda>(tb, eeClass, fn, sc, i, rest). GetNumberEightBytes eeClass - i)") auto

declare ReportPointersFromStructInRegisters_loop.simps [simp del]

definition ReportPointersFromStructInRegisters ::
  "platform \<Rightarrow> ArgDestination \<Rightarrow> ('sc, 'g) promote_func \<Rightarrow> 'sc \<Rightarrow> int \<Rightarrow> 'g \<Rightarrow> fault + 'g" where
  "ReportPointersFromStructInRegisters tb this fn sc fieldBytes g =
     (if \<not> IsStructPassedInRegs tb this then Inl AssertionFailed
      else case GetStructGenRegDestinationAddress tb this of
        Inl e \<Rightarrow> Inl e
      | Inr genRegDest \<Rightarrow>
      (case m_argLocDescForStructInRegs this of
        None \<Rightarrow> Inl NullReference
      | Some argLocDesc \<Rightarrow>
      (case m_eeClass argLocDesc of
        None \<Rightarrow> Inl AssertionFailed
      | Some eeClass \<Rightarrow>
          ReportPointersFromStructInRegisters_loop tb eeClass fn sc 0 genRegDest fieldBytes g)))"

section \<open>Positions of the eightbytes in the register image\<close>

text \<open>
  Where the units of a layout lie: the offset of unit \<^verbatim>\<open>i\<close> in the source value, its
  offset in the run of general-purpose registers (which the units that are not SSE fill
  back to back) and the number of the floating register it takes.
\<close>

definition isSSE :: "eightByte \<Rightarrow> bool" where
  "isSSE u \<longleftrightarrow> classification u = SystemVClassificationTypeSSE"

definition isReference :: "eightByte \<Rightarrow> bool" where
  "isReference u \<longleftrightarrow> classification u = SystemVClassificationTypeIntegerReference \<or>
                     classification u = SystemVClassificationTypeIntegerByRef"

definition srcOffsetOf :: "EEClass \<Rightarrow> nat \<Rightarrow> int" where
  "srcOffsetOf eeClass i = int (sum_list (map sizeInBytes (take i (m_eightBytes eeClass))))"

definition genOffsetOf :: "EEClass \<Rightarrow> nat \<Rightarrow> int" where
  "genOffsetOf eeClass i =
     int (sum_list (map sizeInBytes (filter (\<lambda>u. \<not> isSSE u) (take i (m_eightBytes eeClass)))))"

definition floatIndexOf :: "EEClass \<Rightarrow> nat \<Rightarrow> int" where
  "floatIndexOf eeClass i = int (length (filter isSSE (take i (m_eightBytes eeClass))))"

definition totalSize :: "EEClass \<Rightarrow> int" where
  "totalSize eeClass = int (sum_list (map sizeInBytes (m_eightBytes eeClass)))"

text \<open>
  The destination of unit \<^verbatim>\<open>i\<close> when a whole value is copied: its floating register
  (16 bytes apart) for an SSE unit, else its place in the run of general-purpose
  registers; and the bytes of the source that belong to the unit.
\<close>

definition unitDest :: "EEClass \<Rightarrow> TADDR \<Rightarrow> TADDR \<Rightarrow> nat \<Rightarrow> TADDR" where
  "unitDest eeClass genRegDest floatRegDest i =
     (if isSSE (m_eightBytes eeClass ! i) then floatRegDest + 16 * floatIndexOf eeClass i
      else genRegDest + genOffsetOf eeClass i)"

definition unitBytes :: "EEClass \<Rightarrow> byte list \<Rightarrow> nat \<Rightarrow> byte list" where
  "unitBytes eeClass src i =
     take (sizeInBytes (m_eightBytes eeClass ! i)) (drop (nat (srcOffsetOf eeClass i)) src)"

definition copyUnit :: "EEClass \<Rightarrow> byte list \<Rightarrow> TADDR \<Rightarrow> TADDR \<Rightarrow> memory \<Rightarrow> nat \<Rightarrow> memory" where
  "copyUnit eeClass src genRegDest floatRegDest mem i =
     write_mem mem (unitDest eeClass genRegDest floatRegDest i) (unitBytes eeClass src i)"

text \<open>What the assertions of the loop body of \<^verbatim>\<open>CopyStructToRegisters\<close> demand of unit
  \<^verbatim>\<open>i\<close>, besides the count of remaining bytes.\<close>

definition eightByteAccepted :: "EEClass \<Rightarrow> TADDR \<Rightarrow> nat \<Rightarrow> bool" where
  "eightByteAccepted eeClass genRegDest i \<longleftrightarrow>
     (let u = m_eightBytes eeClass ! i in
      if isSSE u then sizeInBytes u = 4 \<or> sizeInBytes u = 8
      else if sizeInBytes u = 8
        then (classification u = SystemVClassificationTypeInteger \<or> isReference u) \<and>
             8 dvd (genRegDest + genOffsetOf eeClass i)
        else classification u = SystemVClassificationTypeInteger)"


text \<open>
  The reference units of a layout in the order of their indices, each with the address of
  its general-purpose register slot and the flags of its kind: \<^verbatim>\<open>GC_CALL_INTERIOR\<close> for
  a byref, no flag for an object reference.
\<close>

definition referenceSlots :: "platform \<Rightarrow> EEClass \<Rightarrow> TADDR \<Rightarrow> (TADDR \<times> UINT32) list" where
  "referenceSlots tb eeClass genRegDest =
     map (\<lambda>i. (genRegDest + genOffsetOf eeClass i,
               if classification (m_eightBytes eeClass ! i) = SystemVClassificationTypeIntegerByRef
               then GC_CALL_INTERIOR tb else 0))
       (filter (\<lambda>i. isReference (m_eightBytes eeClass ! i)) [0..<length (m_eightBytes eeClass)])"

text \<open>What a 16-byte floating slot holds after a field of \<^verbatim>\<open>fs\<close> bytes is copied from
  the cursor \<^verbatim>\<open>pos\<close>: the field, then zeros.\<close>

definition hfa_slot :: "byte list \<Rightarrow> nat \<Rightarrow> nat \<Rightarrow> byte list" where
  "hfa_slot src fs pos = take fs (drop pos src) @ replicate (16 - fs) 0"

section \<open>Example data\<close>

text \<open>
  A platform with the values of the Unix AMD64 transition block (argument registers at
  offset 0, the floating argument registers below them) and small descriptors, on which
  the theorems below are instantiated.
\<close>

definition example_platform :: platform where
  "example_platform =
     \<lparr>StructInRegsOffset = - 2, GetOffsetOfArgumentRegisters = 0,
      GetOffsetOfFloatArgumentRegisters = - 128,
      IsFloatArgumentRegisterOffset = (\<lambda>ofs. ofs < 0),
      CLR_SYSTEMV_MAX_EIGHTBYTES_COUNT_TO_PASS_IN_REGISTERS = 2,
      GC_CALL_INTERIOR = 1\<rparr>"

definition no_fields :: FpStructInRegistersInfo where
  "no_fields = \<lparr>flags = {}, offset1st = 0, offset2nd = 0, SizeShift1st = 0, SizeShift2nd = 0\<rparr>"

definition eightByte_desc :: "eightByte list \<Rightarrow> ArgLocDesc" where
  "eightByte_desc units =
     \<lparr>m_idxFloatReg = 0, m_cFloatReg = 0, m_idxGenReg = 0, m_cGenReg = 0, m_hfaFieldSize = 0,
      m_eeClass = Some \<lparr>m_eightBytes = units\<rparr>, m_structFields = no_fields\<rparr>"

definition float_slot_dest :: ArgDestination where
  "float_slot_dest = \<lparr>m_base = 4096, m_offset = - 128, m_argLocDescForStructInRegs = None\<rparr>"

definition hfa_dest :: "int \<Rightarrow> int \<Rightarrow> ArgDestination" where
  "hfa_dest cFloatReg hfaFieldSize =
     \<lparr>m_base = 4096, m_offset = - 128,
      m_argLocDescForStructInRegs =
        Some \<lparr>m_idxFloatReg = 0, m_cFloatReg = cFloatReg, m_idxGenReg = 0, m_cGenReg = 0,
              m_hfaFieldSize = hfaFieldSize, m_eeClass = None, m_structFields = no_fields\<rparr>\<rparr>"




definition empty_dest :: ArgDestination where
  "empty_dest = \<lparr>m_base = 4096, m_offset = - 2,
                  m_argLocDescForStructInRegs = Some (eightByte_desc [])\<rparr>"

definition two_unit_dest :: "SystemVClassificationType \<Rightarrow> nat \<Rightarrow> SystemVClassificationType \<Rightarrow> nat \<Rightarrow> ArgDestination" where
  "two_unit_dest c1 s1 c2 s2 =
     \<lparr>m_base = 4096, m_offset = - 2,
      m_argLocDescForStructInRegs =
        Some (eightByte_desc [\<lparr>classification = c1, sizeInBytes = s1\<rparr>,
                              \<lparr>classification = c2, sizeInBytes = s2\<rparr>])\<rparr>"

definition nullable_int_dest :: ArgDestination where
  "nullable_int_dest =
     \<lparr>m_base = 4096, m_offset = - 2,
      m_argLocDescForStructInRegs =
        Some (eightByte_desc [\<lparr>classification = SystemVClassificationTypeInteger, sizeInBytes = 8\<rparr>])\<rparr>"

section \<open>Auxiliary lemmas\<close>

subsection \<open>Words and their bytes\<close>

lemma bit_word_of_bytes:
  "bit (word_of_bytes bs :: 'a::len word) n \<longleftrightarrow>
     n < LENGTH('a) \<and> n div 8 < length bs \<and> bit (bs ! (n div 8)) (n mod 8)"
proof (induction bs arbitrary: n)
  case Nil
  then show ?case by simp
next
  case (Cons b bs)
  show ?case
  proof (cases "n < 8")
    case True
    then show ?thesis by (auto simp: bit_simps dest: bit_imp_le_length)
  next
    case False
    then have "n div 8 = Suc ((n - 8) div 8)" "n mod 8 = (n - 8) mod 8"
      by (simp_all add: le_div_geq le_mod_geq)
    with False show ?thesis
      using Cons.IH [of "n - 8"] by (auto simp: bit_simps dest: bit_imp_le_length)
  qed
qed

lemma length_bytes_of_word [simp]: "length (bytes_of_word n w) = n"
  by (induction n arbitrary: w) simp_all

lemma nth_bytes_of_word:
  "k < n \<Longrightarrow> bytes_of_word n w ! k = ucast (drop_bit (8 * k) w)"
proof (induction n arbitrary: w k)
  case 0
  then show ?case by simp
next
  case (Suc n)
  then show ?case by (cases k) (simp_all add: drop_bit_drop_bit add.commute)
qed

lemma bit_nth_bytes_of_word:
  "k < n \<Longrightarrow> bit (bytes_of_word n (w :: 'a::len word) ! k) j \<longleftrightarrow> j < 8 \<and> bit w (8 * k + j)"
  by (auto simp: nth_bytes_of_word bit_simps)

lemma bytes_of_word_of_bytes:
  assumes len: "length bs = n" and fit: "8 * n \<le> LENGTH('a::len)"
  shows "bytes_of_word n (word_of_bytes bs :: 'a word) = bs"
proof (rule nth_equalityI)
  show "length (bytes_of_word n (word_of_bytes bs :: 'a word)) = length bs"
    using len by simp
next
  fix k
  assume "k < length (bytes_of_word n (word_of_bytes bs :: 'a word))"
  then have k: "k < n" by simp
  show "bytes_of_word n (word_of_bytes bs :: 'a word) ! k = bs ! k"
  proof (rule bit_word_eqI)
    fix j assume "j < LENGTH(8)"
    then have j: "j < 8" by simp
    from k j fit have "8 * k + j < LENGTH('a)" by simp
    moreover from j have "(8 * k + j) div 8 = k" "(8 * k + j) mod 8 = j" by simp_all
    ultimately show "bit (bytes_of_word n (word_of_bytes bs :: 'a word) ! k) j = bit (bs ! k) j"
      using k j len by (simp add: bit_nth_bytes_of_word bit_word_of_bytes)
  qed
qed

lemma word_of_bytes_of_word:
  assumes "LENGTH('a::len) \<le> 8 * n"
  shows "word_of_bytes (bytes_of_word n w) = (w :: 'a word)"
proof (rule bit_word_eqI)
  fix j assume j: "j < LENGTH('a)"
  with assms have "j div 8 < n" by (simp add: less_mult_imp_div_less mult.commute)
  moreover have "8 * (j div 8) + j mod 8 = j" by simp
  ultimately show "bit (word_of_bytes (bytes_of_word n w) :: 'a word) j = bit w j"
    using j by (simp add: bit_word_of_bytes bit_nth_bytes_of_word)
qed

subsection \<open>Reading and writing memory\<close>

lemma length_read_mem [simp]: "length (read_mem mem a n) = n"
  by (simp add: read_mem_def)

lemma nth_read_mem: "k < n \<Longrightarrow> read_mem mem a n ! k = mem (a + int k)"
  by (simp add: read_mem_def)

lemma read_mem_write_mem_same: "read_mem (write_mem mem a bs) a (length bs) = bs"
  by (rule nth_equalityI) (simp_all add: nth_read_mem write_mem_def)

lemma write_mem_outside: "x < a \<or> a + int (length bs) \<le> x \<Longrightarrow> write_mem mem a bs x = mem x"
  by (auto simp: write_mem_def)

lemma write_mem_inside:
  "a \<le> x \<Longrightarrow> x < a + int (length bs) \<Longrightarrow> write_mem mem a bs x = bs ! nat (x - a)"
  by (simp add: write_mem_def)

subsection \<open>The NaN-boxing pattern\<close>

lemma NanBox_pattern_eq: "(0xffffffff00000000 :: UINT64) = push_bit 32 (mask 32)"
  by (simp add: mask_eq_exp_minus_1)

lemma ones32_eq: "(0xffffffff :: UINT64) = mask 32"
  by (simp add: mask_eq_exp_minus_1)

lemma NanBox_low: "(ucast (0xffffffff00000000 OR (ucast (v :: UINT32) :: UINT64)) :: UINT32) = v"
  by (simp only: NanBox_pattern_eq, rule bit_word_eqI) (auto simp: bit_simps)

lemma NanBox_high: "drop_bit 32 (0xffffffff00000000 OR (ucast (v :: UINT32) :: UINT64)) = 0xffffffff"
  by (simp only: NanBox_pattern_eq ones32_eq, rule bit_word_eqI) (auto simp: bit_simps)


lemma read_src_ok:
  "0 \<le> pos \<Longrightarrow> 0 \<le> n \<Longrightarrow> pos + n \<le> int (length src) \<Longrightarrow>
     read_src src pos n = Inr (take (nat n) (drop (nat pos) src))"
  by (simp add: read_src_def)

lemma fetch_store_UINT64: "fetch_UINT64 (store_UINT64 mem a w) a = w"
  using read_mem_write_mem_same [of mem a "bytes_of_word 8 w"]
  by (simp add: fetch_UINT64_def store_UINT64_def word_of_bytes_of_word)

lemma fetch_store_UINT32: "fetch_UINT32 (store_UINT32 mem a w) a = w"
  using read_mem_write_mem_same [of mem a "bytes_of_word 4 w"]
  by (simp add: fetch_UINT32_def store_UINT32_def word_of_bytes_of_word)

subsection \<open>The loop of the homogeneous floating aggregate\<close>

lemma write_mem_append:
  "write_mem (write_mem mem a xs) (a + int (length xs)) ys = write_mem mem a (xs @ ys)"
proof (rule ext)
  fix x
  have "nat (x - (a + int (length xs))) = nat (x - a) - length xs" by arith
  then show "write_mem (write_mem mem a xs) (a + int (length xs)) ys x = write_mem mem a (xs @ ys) x"
    by (auto simp: write_mem_def nth_append)
qed

lemma bytes_of_word_zero: "bytes_of_word n (0 :: 'a::len word) = replicate n 0"
  by (induction n) simp_all

lemma bytes_of_word_ucast32:
  "bytes_of_word 8 (ucast (w :: UINT32) :: UINT64) = bytes_of_word 4 w @ replicate 4 0"
proof (rule nth_equalityI)
  show "length (bytes_of_word 8 (ucast w :: UINT64)) = length (bytes_of_word 4 w @ replicate 4 0)"
    by simp
next
  fix k assume "k < length (bytes_of_word 8 (ucast w :: UINT64))"
  then have k: "k < 8" by simp
  show "bytes_of_word 8 (ucast w :: UINT64) ! k = (bytes_of_word 4 w @ replicate 4 0) ! k"
  proof (cases "k < 4")
    case True
    then show ?thesis
      using k by (intro bit_word_eqI) (auto simp: nth_append bit_nth_bytes_of_word bit_simps)
  next
    case False
    then show ?thesis
      using k by (intro bit_word_eqI)
        (auto simp: nth_append bit_nth_bytes_of_word bit_simps dest: bit_imp_le_length)
  qed
qed

lemma store_pair:
  "length lo = 8 \<Longrightarrow>
   store_UINT64 (write_mem mem dest lo) (dest + 8) upper = write_mem mem dest (lo @ bytes_of_word 8 upper)"
  using write_mem_append [of mem dest lo "bytes_of_word 8 upper"]
  by (simp add: store_UINT64_def)

lemma hfa_step4:
  assumes "0 \<le> pos" "pos + 4 \<le> int (length src)"
  shows "CopyHFAStructToRegister_loop (Suc n) 4 src pos dest mem =
         CopyHFAStructToRegister_loop n 4 src (pos + 4) (dest + 16)
           (write_mem mem dest (hfa_slot src 4 (nat pos)))"
proof -
  let ?bs = "take 4 (drop (nat pos) src)"
  from assms have len: "length ?bs = 4" by simp
  have ld: "load_UINT32 src pos = Inr (word_of_bytes ?bs)"
    using assms by (simp add: load_UINT32_def read_src_def)
  have "bytes_of_word 4 (word_of_bytes ?bs :: UINT32) = ?bs"
    by (rule bytes_of_word_of_bytes [OF len]) simp
  then have "bytes_of_word 8 (ucast (word_of_bytes ?bs :: UINT32) :: UINT64) = ?bs @ replicate 4 0"
    by (simp only: bytes_of_word_ucast32)
  then have "store_UINT64 (store_UINT64 mem dest (ucast (word_of_bytes ?bs :: UINT32))) (dest + 8) 0
      = write_mem mem dest (hfa_slot src 4 (nat pos))"
    using store_pair [of "?bs @ replicate 4 0" mem dest 0] len
    by (simp add: store_UINT64_def hfa_slot_def bytes_of_word_zero replicate_add [symmetric])
  then show ?thesis by (simp add: ld)
qed

lemma hfa_step8:
  assumes "0 \<le> pos" "pos + 8 \<le> int (length src)"
  shows "CopyHFAStructToRegister_loop (Suc n) 8 src pos dest mem =
         CopyHFAStructToRegister_loop n 8 src (pos + 8) (dest + 16)
           (write_mem mem dest (hfa_slot src 8 (nat pos)))"
proof -
  let ?bs = "take 8 (drop (nat pos) src)"
  from assms have len: "length ?bs = 8" by simp
  have ld: "load_UINT64 src pos = Inr (word_of_bytes ?bs)"
    using assms by (simp add: load_UINT64_def read_src_def)
  have "bytes_of_word 8 (word_of_bytes ?bs :: UINT64) = ?bs"
    using len by (simp add: bytes_of_word_of_bytes)
  then have "store_UINT64 (store_UINT64 mem dest (word_of_bytes ?bs)) (dest + 8) 0
      = write_mem mem dest (hfa_slot src 8 (nat pos))"
    using store_pair [of ?bs mem dest 0] len
    by (simp add: store_UINT64_def hfa_slot_def bytes_of_word_zero)
  then show ?thesis by (simp add: ld)
qed

lemma hfa_step16:
  assumes "0 \<le> pos" "pos + 16 \<le> int (length src)"
  shows "CopyHFAStructToRegister_loop (Suc n) 16 src pos dest mem =
         CopyHFAStructToRegister_loop n 16 src (pos + 16) (dest + 16)
           (write_mem mem dest (hfa_slot src 16 (nat pos)))"
proof -
  let ?lo = "take 8 (drop (nat pos) src)"
  let ?hi = "take 8 (drop (nat (pos + 8)) src)"
  from assms have len: "length ?lo = 8" "length ?hi = 8" by simp_all
  have ld: "load_UINT64 src pos = Inr (word_of_bytes ?lo)"
       "load_UINT64 src (pos + 8) = Inr (word_of_bytes ?hi)"
    using assms by (simp_all add: load_UINT64_def read_src_def)
  have b: "bytes_of_word 8 (word_of_bytes ?lo :: UINT64) = ?lo"
          "bytes_of_word 8 (word_of_bytes ?hi :: UINT64) = ?hi"
    using len by (simp_all add: bytes_of_word_of_bytes)
  have "nat (pos + 8) = nat pos + 8" using assms by simp
  then have "?lo @ ?hi = take 16 (drop (nat pos) src)"
    using take_add [of 8 8 "drop (nat pos) src"] by (simp add: add.commute)
  then have "store_UINT64 (store_UINT64 mem dest (word_of_bytes ?lo)) (dest + 8) (word_of_bytes ?hi)
      = write_mem mem dest (hfa_slot src 16 (nat pos))"
    using store_pair [of ?lo mem dest "word_of_bytes ?hi"] len b
    by (simp add: store_UINT64_def hfa_slot_def)
  then show ?thesis by (simp add: ld)
qed

lemma hfa_step:
  assumes "fs = 4 \<or> fs = 8 \<or> fs = 16" "0 \<le> pos" "pos + fs \<le> int (length src)"
  shows "CopyHFAStructToRegister_loop (Suc n) fs src pos dest mem =
         CopyHFAStructToRegister_loop n fs src (pos + fs) (dest + 16)
           (write_mem mem dest (hfa_slot src (nat fs) (nat pos)))"
proof -
  consider "fs = 4" | "fs = 8" | "fs = 16" using assms(1) by blast
  then show ?thesis
  proof cases
    case 1
    with assms hfa_step4 [of pos src n dest mem] show ?thesis
      by (simp del: CopyHFAStructToRegister_loop.simps)
  next
    case 2
    with assms hfa_step8 [of pos src n dest mem] show ?thesis
      by (simp del: CopyHFAStructToRegister_loop.simps)
  next
    case 3
    with assms hfa_step16 [of pos src n dest mem] show ?thesis
      by (simp del: CopyHFAStructToRegister_loop.simps)
  qed
qed

lemma length_hfa_slot:
  "fs \<le> 16 \<Longrightarrow> pos + fs \<le> length src \<Longrightarrow> length (hfa_slot src fs pos) = 16"
  by (simp add: hfa_slot_def)

lemma read_mem_cong: "(\<And>k. k < n \<Longrightarrow> m1 (a + int k) = m2 (a + int k)) \<Longrightarrow> read_mem m1 a n = read_mem m2 a n"
  by (simp add: read_mem_def)

lemma hfa_loop:
  assumes "fs = 4 \<or> fs = 8 \<or> fs = 16" "0 \<le> pos" "pos + int n * fs \<le> int (length src)"
  shows "\<exists>mem'. CopyHFAStructToRegister_loop n fs src pos dest mem = Inr mem' \<and>
           (\<forall>i<n. read_mem mem' (dest + 16 * int i) 16 = hfa_slot src (nat fs) (nat (pos + int i * fs))) \<and>
           (\<forall>a. a < dest \<or> dest + 16 * int n \<le> a \<longrightarrow> mem' a = mem a)"
  using assms
proof (induction n arbitrary: pos dest mem)
  case 0
  then show ?case by simp
next
  case (Suc n)
  let ?m1 = "write_mem mem dest (hfa_slot src (nat fs) (nat pos))"
  from Suc.prems have fs: "0 < fs" "fs \<le> 16" by auto
  from Suc.prems have bound: "pos + fs \<le> int (length src)" "pos + fs + int n * fs \<le> int (length src)"
    using fs by (auto simp: algebra_simps)
  have len: "length (hfa_slot src (nat fs) (nat pos)) = 16"
    using fs bound Suc.prems(2) by (intro length_hfa_slot) auto
  have step: "CopyHFAStructToRegister_loop (Suc n) fs src pos dest mem =
      CopyHFAStructToRegister_loop n fs src (pos + fs) (dest + 16) ?m1"
    using Suc.prems bound by (intro hfa_step) auto
  from Suc.IH [of "pos + fs" "dest + 16" ?m1] Suc.prems bound fs
  obtain mem' where run: "CopyHFAStructToRegister_loop n fs src (pos + fs) (dest + 16) ?m1 = Inr mem'"
    and slots: "\<forall>i<n. read_mem mem' (dest + 16 + 16 * int i) 16
                  = hfa_slot src (nat fs) (nat (pos + fs + int i * fs))"
    and frame: "\<forall>a. a < dest + 16 \<or> dest + 16 + 16 * int n \<le> a \<longrightarrow> mem' a = ?m1 a"
    by auto
  have first: "read_mem mem' dest 16 = hfa_slot src (nat fs) (nat pos)"
  proof -
    have "read_mem mem' dest 16 = read_mem ?m1 dest 16"
      using frame by (intro read_mem_cong) simp
    also have "\<dots> = hfa_slot src (nat fs) (nat pos)"
      using read_mem_write_mem_same [of mem dest "hfa_slot src (nat fs) (nat pos)"] len by simp
    finally show ?thesis .
  qed
  have all: "\<forall>i<Suc n. read_mem mem' (dest + 16 * int i) 16
                  = hfa_slot src (nat fs) (nat (pos + int i * fs))"
  proof (intro allI impI)
    fix i assume "i < Suc n"
    show "read_mem mem' (dest + 16 * int i) 16 = hfa_slot src (nat fs) (nat (pos + int i * fs))"
    proof (cases i)
      case 0
      with first show ?thesis by simp
    next
      case (Suc j)
      with \<open>i < Suc n\<close> slots have "read_mem mem' (dest + 16 + 16 * int j) 16
                  = hfa_slot src (nat fs) (nat (pos + fs + int j * fs))" by simp
      with Suc show ?thesis by (simp add: algebra_simps)
    qed
  qed
  have "\<forall>a. a < dest \<or> dest + 16 * int (Suc n) \<le> a \<longrightarrow> mem' a = mem a"
    using frame len by (auto simp: write_mem_outside)
  with step run all show ?case by simp
qed

subsection \<open>Fields of a split hardware-floating composite\<close>

lemma load_UINT32_ok:
  "0 \<le> pos \<Longrightarrow> pos + 4 \<le> int (length src) \<Longrightarrow>
     load_UINT32 src pos = Inr (word_of_bytes (take 4 (drop (nat pos) src)))"
  by (simp add: load_UINT32_def read_src_def)

lemma load_UINT64_ok:
  "0 \<le> pos \<Longrightarrow> pos + 8 \<le> int (length src) \<Longrightarrow>
     load_UINT64 src pos = Inr (word_of_bytes (take 8 (drop (nat pos) src)))"
  by (simp add: load_UINT64_def read_src_def)











lemma c_div_nonneg: "0 \<le> a \<Longrightarrow> c_div a 8 = a div 8"
  by (simp add: c_div_def sgn_if)

subsection \<open>Offsets of the units and the loop of root reporting\<close>

lemma srcOffsetOf_Suc:
  "i < length (m_eightBytes ee) \<Longrightarrow>
     srcOffsetOf ee (Suc i) = srcOffsetOf ee i + int (sizeInBytes (m_eightBytes ee ! i))"
  by (simp add: srcOffsetOf_def take_Suc_conv_app_nth)

lemma genOffsetOf_Suc:
  "i < length (m_eightBytes ee) \<Longrightarrow>
     genOffsetOf ee (Suc i) = genOffsetOf ee i +
       (if isSSE (m_eightBytes ee ! i) then 0 else int (sizeInBytes (m_eightBytes ee ! i)))"
  by (simp add: genOffsetOf_def take_Suc_conv_app_nth)

lemma floatIndexOf_Suc:
  "i < length (m_eightBytes ee) \<Longrightarrow>
     floatIndexOf ee (Suc i) = floatIndexOf ee i + (if isSSE (m_eightBytes ee ! i) then 1 else 0)"
  by (simp add: floatIndexOf_def take_Suc_conv_app_nth)

lemma srcOffsetOf_total: "srcOffsetOf ee (length (m_eightBytes ee)) = totalSize ee"
  by (simp add: srcOffsetOf_def totalSize_def)

lemma srcOffsetOf_0 [simp]: "srcOffsetOf ee 0 = 0"
  by (simp add: srcOffsetOf_def)

lemma genOffsetOf_0 [simp]: "genOffsetOf ee 0 = 0"
  by (simp add: genOffsetOf_def)

lemma floatIndexOf_0 [simp]: "floatIndexOf ee 0 = 0"
  by (simp add: floatIndexOf_def)

lemma srcOffsetOf_mono: "i \<le> j \<Longrightarrow> j \<le> length (m_eightBytes ee) \<Longrightarrow> srcOffsetOf ee i \<le> srcOffsetOf ee j"
proof (induction j)
  case 0
  then show ?case by simp
next
  case (Suc j)
  then show ?case
    by (cases "i = Suc j") (auto simp: srcOffsetOf_Suc)
qed

lemma genOffsetOf_mono: "i \<le> j \<Longrightarrow> j \<le> length (m_eightBytes ee) \<Longrightarrow> genOffsetOf ee i \<le> genOffsetOf ee j"
proof (induction j)
  case 0
  then show ?case by simp
next
  case (Suc j)
  then show ?case
    by (cases "i = Suc j") (auto simp: genOffsetOf_Suc)
qed

lemma report_loop_done:
  "length (m_eightBytes ee) \<le> i \<Longrightarrow>
     ReportPointersFromStructInRegisters_loop tb ee fn sc i gen rem g =
       (if rem = 0 then Inr g else Inl AssertionFailed)"
  by (subst ReportPointersFromStructInRegisters_loop.simps) (simp add: GetNumberEightBytes_def)

lemma report_loop:
  assumes refs: "\<forall>j < length (m_eightBytes ee). isReference (m_eightBytes ee ! j) \<longrightarrow>
            sizeInBytes (m_eightBytes ee ! j) = 8 \<and> 8 dvd (gen + genOffsetOf ee j)"
    and i: "i \<le> length (m_eightBytes ee)"
  shows "ReportPointersFromStructInRegisters_loop tb ee fn sc i (gen + genOffsetOf ee i) rem g =
     (if rem = totalSize ee - srcOffsetOf ee i
      then Inr (foldl (\<lambda>g (a, flags). fn a sc flags g) g
             (map (\<lambda>j. (gen + genOffsetOf ee j,
                        if classification (m_eightBytes ee ! j) = SystemVClassificationTypeIntegerByRef
                        then GC_CALL_INTERIOR tb else 0))
                (filter (\<lambda>j. isReference (m_eightBytes ee ! j)) [i..<length (m_eightBytes ee)])))
      else Inl AssertionFailed)"
  using i
proof (induction "length (m_eightBytes ee) - i" arbitrary: i rem g)
  case 0
  then have "i = length (m_eightBytes ee)" by simp
  then show ?case
    by (simp add: report_loop_done srcOffsetOf_total)
next
  case (Suc k)
  let ?n = "length (m_eightBytes ee)"
  let ?u = "m_eightBytes ee ! i"
  let ?s = "int (sizeInBytes ?u)"
  from Suc.hyps(2) have lt: "i < ?n" by simp
  have rest: "srcOffsetOf ee (Suc i) \<le> totalSize ee"
    using srcOffsetOf_mono [of "Suc i" ?n ee] lt by (simp add: srcOffsetOf_total)
  have upt: "[i..<?n] = i # [Suc i..<?n]" using lt by (simp add: upt_conv_Cons)
  have IH: "\<And>rem g. ReportPointersFromStructInRegisters_loop tb ee fn sc (Suc i)
        (gen + genOffsetOf ee (Suc i)) rem g =
     (if rem = totalSize ee - srcOffsetOf ee (Suc i)
      then Inr (foldl (\<lambda>g (a, flags). fn a sc flags g) g
             (map (\<lambda>j. (gen + genOffsetOf ee j,
                        if classification (m_eightBytes ee ! j) = SystemVClassificationTypeIntegerByRef
                        then GC_CALL_INTERIOR tb else 0))
                (filter (\<lambda>j. isReference (m_eightBytes ee ! j)) [Suc i..<?n])))
      else Inl AssertionFailed)"
    using Suc.hyps(1) [of "Suc i"] Suc.hyps(2) lt by simp
  show ?case
  proof (cases "rem < ?s")
    case True
    then have "rem \<noteq> totalSize ee - srcOffsetOf ee i"
      using rest lt by (simp add: srcOffsetOf_Suc)
    moreover have "ReportPointersFromStructInRegisters_loop tb ee fn sc i (gen + genOffsetOf ee i) rem g
        = Inl AssertionFailed"
      using True lt
      by (subst ReportPointersFromStructInRegisters_loop.simps)
        (simp add: GetNumberEightBytes_def GetEightByteSize_def report_eightByte_def)
    ultimately show ?thesis by simp
  next
    case False
    consider (sse) "isSSE ?u" | (ref) "isReference ?u" | (other) "\<not> isSSE ?u" "\<not> isReference ?u"
      by blast
    then show ?thesis
    proof cases
      case sse
      then have nr: "\<not> isReference ?u" by (auto simp: isSSE_def isReference_def)
      have "ReportPointersFromStructInRegisters_loop tb ee fn sc i (gen + genOffsetOf ee i) rem g
        = ReportPointersFromStructInRegisters_loop tb ee fn sc (Suc i)
            (gen + genOffsetOf ee (Suc i)) (rem - ?s) g"
        using False lt sse
        by (subst ReportPointersFromStructInRegisters_loop.simps)
          (simp add: GetNumberEightBytes_def GetEightByteSize_def GetEightByteClassification_def
             report_eightByte_def genOffsetOf_Suc isSSE_def)
      then show ?thesis using lt nr
        by (simp only: IH upt) (auto simp: srcOffsetOf_Suc)
    next
      case ref
      then have ns: "\<not> isSSE ?u" by (auto simp: isSSE_def isReference_def)
      from refs lt ref have s8: "sizeInBytes ?u = 8" and al: "8 dvd (gen + genOffsetOf ee i)"
        by auto
      have "ReportPointersFromStructInRegisters_loop tb ee fn sc i (gen + genOffsetOf ee i) rem g
        = ReportPointersFromStructInRegisters_loop tb ee fn sc (Suc i)
            (gen + genOffsetOf ee (Suc i)) (rem - ?s)
            (fn (gen + genOffsetOf ee i) sc
               (if classification ?u = SystemVClassificationTypeIntegerByRef
                then GC_CALL_INTERIOR tb else 0) g)"
        using False lt ref ns s8 al
        by (subst ReportPointersFromStructInRegisters_loop.simps)
          (auto simp: GetNumberEightBytes_def GetEightByteSize_def GetEightByteClassification_def
             report_eightByte_def genOffsetOf_Suc isSSE_def isReference_def add.assoc)
      then show ?thesis using lt ref
        by (simp only: IH upt) (auto simp: srcOffsetOf_Suc)
    next
      case other
      have "ReportPointersFromStructInRegisters_loop tb ee fn sc i (gen + genOffsetOf ee i) rem g
        = ReportPointersFromStructInRegisters_loop tb ee fn sc (Suc i)
            (gen + genOffsetOf ee (Suc i)) (rem - ?s) g"
        using False lt other
        by (subst ReportPointersFromStructInRegisters_loop.simps)
          (auto simp: GetNumberEightBytes_def GetEightByteSize_def GetEightByteClassification_def
             report_eightByte_def genOffsetOf_Suc isSSE_def isReference_def add.assoc)
      then show ?thesis using lt other
        by (simp only: IH upt) (auto simp: srcOffsetOf_Suc)
    qed
  qed
qed


lemma length_filter_index:
  "length (filter (\<lambda>i. P (xs ! i)) [0..<length xs]) = length (filter P xs)"
proof -
  have "filter P (map ((!) xs) [0..<length xs]) = map ((!) xs) (filter (P \<circ> (!) xs) [0..<length xs])"
    by (rule filter_map)
  then have "length (filter P xs) = length (filter (P \<circ> (!) xs) [0..<length xs])"
    by (simp add: map_nth)
  then show ?thesis by (simp add: comp_def)
qed

lemma referenceSlots_ascending:
  assumes refs: "\<forall>j < length (m_eightBytes ee). isReference (m_eightBytes ee ! j) \<longrightarrow>
            sizeInBytes (m_eightBytes ee ! j) = 8 \<and> 8 dvd (gen + genOffsetOf ee j)"
  shows "sorted_wrt (<) (map fst (referenceSlots tb ee gen))"
proof -
  let ?n = "length (m_eightBytes ee)"
  let ?is = "filter (\<lambda>i. isReference (m_eightBytes ee ! i)) [0..<?n]"
  have "sorted_wrt (<) ?is" by (intro sorted_wrt_filter) simp
  moreover have "gen + genOffsetOf ee i < gen + genOffsetOf ee j"
    if "i \<in> set ?is" "j \<in> set ?is" "i < j" for i j
  proof -
    from that have i: "i < ?n" "isReference (m_eightBytes ee ! i)" and j: "j < ?n" by auto
    then have ns: "\<not> isSSE (m_eightBytes ee ! i)" by (auto simp: isSSE_def isReference_def)
    from refs i have "sizeInBytes (m_eightBytes ee ! i) = 8" by blast
    then have "genOffsetOf ee (Suc i) = genOffsetOf ee i + 8"
      using i ns by (simp add: genOffsetOf_Suc)
    moreover have "genOffsetOf ee (Suc i) \<le> genOffsetOf ee j"
      using that(3) j by (intro genOffsetOf_mono) simp_all
    ultimately show ?thesis by simp
  qed
  ultimately have "sorted_wrt (\<lambda>i j. gen + genOffsetOf ee i < gen + genOffsetOf ee j) ?is"
    by (rule sorted_wrt_mono_rel [rotated]) blast
  then show ?thesis
    by (simp add: referenceSlots_def sorted_wrt_map comp_def)
qed

subsection \<open>The loop of the eightbyte copy\<close>

lemma load_UINT64_Inr:
  assumes "load_UINT64 src pos = Inr v"
  shows "0 \<le> pos \<and> pos + 8 \<le> int (length src) \<and>
         store_UINT64 mem a v = write_mem mem a (take 8 (drop (nat pos) src))"
proof -
  from assms have b: "0 \<le> pos" "pos + 8 \<le> int (length src)"
    and v: "v = word_of_bytes (take 8 (drop (nat pos) src))"
    by (auto simp: load_UINT64_def read_src_def split: if_splits)
  from b have "length (take 8 (drop (nat pos) src)) = 8" by simp
  then have "bytes_of_word 8 (word_of_bytes (take 8 (drop (nat pos) src)) :: UINT64)
      = take 8 (drop (nat pos) src)"
    by (rule bytes_of_word_of_bytes) simp
  with b v show ?thesis by (simp add: store_UINT64_def)
qed

lemma load_UINT32_Inr:
  assumes "load_UINT32 src pos = Inr v"
  shows "0 \<le> pos \<and> pos + 4 \<le> int (length src) \<and>
         store_UINT32 mem a v = write_mem mem a (take 4 (drop (nat pos) src))"
proof -
  from assms have b: "0 \<le> pos" "pos + 4 \<le> int (length src)"
    and v: "v = word_of_bytes (take 4 (drop (nat pos) src))"
    by (auto simp: load_UINT32_def read_src_def split: if_splits)
  from b have "length (take 4 (drop (nat pos) src)) = 4" by simp
  then have "bytes_of_word 4 (word_of_bytes (take 4 (drop (nat pos) src)) :: UINT32)
      = take 4 (drop (nat pos) src)"
    by (rule bytes_of_word_of_bytes) simp
  with b v show ?thesis by (simp add: store_UINT32_def)
qed

lemma read_src_Inr:
  "read_src src pos n = Inr bs \<Longrightarrow>
     0 \<le> n \<and> 0 \<le> pos \<and> pos + n \<le> int (length src) \<and> bs = take (nat n) (drop (nat pos) src)"
  by (auto simp: read_src_def split: if_splits)

lemma copy_eightByte_Inr:
  assumes "copy_eightByte c s src pos g f rem mem = Inr (g', f', m')"
  shows "0 \<le> s \<and> s \<le> rem \<and> 0 \<le> pos \<and> pos + s \<le> int (length src) \<and>
         g' = (if c = SystemVClassificationTypeSSE then g else g + s) \<and>
         f' = (if c = SystemVClassificationTypeSSE then f + 16 else f) \<and>
         m' = write_mem mem (if c = SystemVClassificationTypeSSE then f else g)
                (take (nat s) (drop (nat pos) src)) \<and>
         (c = SystemVClassificationTypeSSE \<longrightarrow> s = 4 \<or> s = 8)"
proof (cases "c = SystemVClassificationTypeSSE")
  case True
  show ?thesis
  proof (cases "s = 8")
    case s8: True
    with True assms obtain v where "load_UINT64 src pos = Inr v"
      and "g' = g" "f' = f + 16" "m' = store_UINT64 mem f v" "s \<le> rem"
      by (auto simp: copy_eightByte_def split: if_splits sum.splits)
    with load_UINT64_Inr [of src pos v mem f] True s8 show ?thesis by simp
  next
    case False
    with True assms obtain v where "load_UINT32 src pos = Inr v"
      and "g' = g" "f' = f + 16" "m' = store_UINT32 mem f v" "s \<le> rem" "s = 4"
      by (auto simp: copy_eightByte_def split: if_splits sum.splits)
    with load_UINT32_Inr [of src pos v mem f] True show ?thesis by simp
  qed
next
  case False
  show ?thesis
  proof (cases "s = 8")
    case s8: True
    with False assms obtain v where "load_UINT64 src pos = Inr v"
      and "g' = g + s" "f' = f" "m' = store_UINT64 mem g v" "s \<le> rem"
      by (auto simp: copy_eightByte_def split: if_splits sum.splits)
    with load_UINT64_Inr [of src pos v mem g] False s8 show ?thesis by simp
  next
    case s8: False
    with False assms obtain bs where "read_src src pos s = Inr bs"
      and "g' = g + s" "f' = f" "m' = write_mem mem g bs" "s \<le> rem"
      by (auto simp: copy_eightByte_def split: if_splits sum.splits)
    with read_src_Inr [of src pos s bs] False show ?thesis by simp
  qed
qed

lemma copy_eightByte_ok:
  assumes "0 \<le> pos" "pos + s \<le> int (length src)" "s \<le> rem" "0 \<le> s"
    and "c = SystemVClassificationTypeSSE \<longrightarrow> s = 4 \<or> s = 8"
    and "c \<noteq> SystemVClassificationTypeSSE \<longrightarrow>
           (if s = 8 then (c = SystemVClassificationTypeInteger \<or>
                            c = SystemVClassificationTypeIntegerReference \<or>
                            c = SystemVClassificationTypeIntegerByRef) \<and> 8 dvd g
            else c = SystemVClassificationTypeInteger)"
  shows "copy_eightByte c s src pos g f rem mem =
     Inr (if c = SystemVClassificationTypeSSE then g else g + s,
          if c = SystemVClassificationTypeSSE then f + 16 else f,
          write_mem mem (if c = SystemVClassificationTypeSSE then f else g)
            (take (nat s) (drop (nat pos) src)))"
proof -
  have l64: "s = 8 \<Longrightarrow> load_UINT64 src pos = Inr (word_of_bytes (take 8 (drop (nat pos) src)))"
    using assms(1,2) by (simp add: load_UINT64_ok)
  have l32: "s = 4 \<Longrightarrow> load_UINT32 src pos = Inr (word_of_bytes (take 4 (drop (nat pos) src)))"
    using assms(1,2) by (simp add: load_UINT32_ok)
  have s64: "s = 8 \<Longrightarrow> store_UINT64 mem a (word_of_bytes (take 8 (drop (nat pos) src)))
      = write_mem mem a (take 8 (drop (nat pos) src))" for a
    using load_UINT64_Inr [OF l64] by simp
  have s32: "s = 4 \<Longrightarrow> store_UINT32 mem a (word_of_bytes (take 4 (drop (nat pos) src)))
      = write_mem mem a (take 4 (drop (nat pos) src))" for a
    using load_UINT32_Inr [OF l32] by simp
  have rd: "read_src src pos s = Inr (take (nat s) (drop (nat pos) src))"
    using assms(1,2,4) by (simp add: read_src_def)
  show ?thesis
  proof (cases "c = SystemVClassificationTypeSSE")
    case True
    with assms(5) consider "s = 4" | "s = 8" by blast
    then show ?thesis
    proof cases
      case 1
      with True assms(3) l32 s32 show ?thesis by (simp add: copy_eightByte_def)
    next
      case 2
      with True assms(3) l64 s64 show ?thesis by (simp add: copy_eightByte_def)
    qed
  next
    case False
    show ?thesis
    proof (cases "s = 8")
      case True
      with False assms(3,6) l64 s64 show ?thesis by (simp add: copy_eightByte_def)
    next
      case s8: False
      with False assms(3,6) rd show ?thesis by (simp add: copy_eightByte_def)
    qed
  qed
qed

lemma copy_loop_done:
  "length (m_eightBytes ee) \<le> i \<Longrightarrow>
     CopyStructToRegisters_loop ee src i g f pos rem d mem =
       (if rem = 0 then Inr mem else Inl AssertionFailed)"
  by (subst CopyStructToRegisters_loop.simps) (simp add: GetNumberEightBytes_def)

lemma copy_loop_step:
  "i < length (m_eightBytes ee) \<Longrightarrow>
     CopyStructToRegisters_loop ee src i g f pos rem d mem =
       (case copy_eightByte (classification (m_eightBytes ee ! i))
               (int (sizeInBytes (m_eightBytes ee ! i)) - (d AND 7)) src pos g f rem mem of
          Inl e \<Rightarrow> Inl e
        | Inr (g', f', m') \<Rightarrow>
            CopyStructToRegisters_loop ee src (Suc i) g' f'
              (pos + (int (sizeInBytes (m_eightBytes ee ! i)) - (d AND 7)))
              (rem - (int (sizeInBytes (m_eightBytes ee ! i)) - (d AND 7))) 0 m')"
  by (subst CopyStructToRegisters_loop.simps,
      unfold GetNumberEightBytes_def GetEightByteSize_def GetEightByteClassification_def) simp


lemma copy_eightByte_no_overrun:
  assumes "0 \<le> pos" "pos + rem \<le> int (length src)"
  shows "copy_eightByte c s src pos g f rem mem \<noteq> Inl SourceOverrun"
proof (cases "s \<le> rem")
  case False
  then show ?thesis by (simp add: copy_eightByte_def)
next
  case True
  with assms have in_range: "pos + s \<le> int (length src)" by simp
  have "read_src src pos s \<noteq> Inl SourceOverrun"
    using assms(1) in_range by (simp add: read_src_def)
  moreover have "s = 8 \<Longrightarrow> load_UINT64 src pos \<noteq> Inl SourceOverrun"
    using assms(1) in_range by (simp add: load_UINT64_def read_src_def)
  moreover have "s = 4 \<Longrightarrow> load_UINT32 src pos \<noteq> Inl SourceOverrun"
    using assms(1) in_range by (simp add: load_UINT32_def read_src_def)
  ultimately show ?thesis
    by (auto simp: copy_eightByte_def split: sum.splits)
qed

lemma copy_loop_no_overrun:
  assumes "0 \<le> pos" "pos + rem \<le> int (length src)"
  shows "CopyStructToRegisters_loop ee src i g f pos rem d mem \<noteq> Inl SourceOverrun"
  using assms
proof (induction "length (m_eightBytes ee) - i" arbitrary: i g f pos rem d mem)
  case 0
  then show ?case by (simp add: copy_loop_done)
next
  case (Suc k)
  then have lt: "i < length (m_eightBytes ee)" by simp
  let ?s = "int (sizeInBytes (m_eightBytes ee ! i)) - (d AND 7)"
  let ?step = "copy_eightByte (classification (m_eightBytes ee ! i)) ?s src pos g f rem mem"
  show ?case
  proof (cases ?step)
    case (Inl e)
    with copy_eightByte_no_overrun [OF Suc.prems, of "classification (m_eightBytes ee ! i)" ?s g f mem]
    show ?thesis by (simp add: copy_loop_step [OF lt])
  next
    case (Inr r)
    obtain g' f' m' where r: "r = (g', f', m')" by (cases r)
    from copy_eightByte_Inr [OF Inr [unfolded r]]
    have "0 \<le> ?s" "?s \<le> rem" by simp_all
    with Suc.prems have "0 \<le> pos + ?s" "pos + ?s + (rem - ?s) \<le> int (length src)" by simp_all
    from Suc.hyps(1) [OF _ this, of "Suc i" g' f' 0 m'] Suc.hyps(2) lt
    show ?thesis by (simp add: copy_loop_step [OF lt] Inr r)
  qed
qed

lemma copy_loop_Inr_total:
  assumes "CopyStructToRegisters_loop ee src i g f pos rem 0 mem = Inr m'"
    and "i \<le> length (m_eightBytes ee)"
  shows "rem = totalSize ee - srcOffsetOf ee i"
  using assms
proof (induction "length (m_eightBytes ee) - i" arbitrary: i g f pos rem mem)
  case 0
  then have "i = length (m_eightBytes ee)" by simp
  with 0 show ?case by (simp add: copy_loop_done srcOffsetOf_total split: if_splits)
next
  case (Suc k)
  then have lt: "i < length (m_eightBytes ee)" by simp
  let ?s = "int (sizeInBytes (m_eightBytes ee ! i))"
  let ?step = "copy_eightByte (classification (m_eightBytes ee ! i)) ?s src pos g f rem mem"
  from Suc.prems(1) obtain g' f' m1 where step: "?step = Inr (g', f', m1)"
    and rest: "CopyStructToRegisters_loop ee src (Suc i) g' f' (pos + ?s) (rem - ?s) 0 m1 = Inr m'"
    by (auto simp: copy_loop_step [OF lt] split: sum.splits)
  from Suc.hyps(1) [OF _ rest] Suc.hyps(2) lt
  have "rem - ?s = totalSize ee - srcOffsetOf ee (Suc i)" by simp
  then show ?case by (simp add: srcOffsetOf_Suc [OF lt])
qed

lemma copy_loop_frame:
  assumes "CopyStructToRegisters_loop ee src i g f pos rem d mem = Inr m'"
    and "a < g" "a < f \<or> f + 16 * int (length (m_eightBytes ee) - i) \<le> a"
  shows "m' a = mem a"
  using assms
proof (induction "length (m_eightBytes ee) - i" arbitrary: i g f pos rem d mem)
  case 0
  then show ?case by (simp add: copy_loop_done split: if_splits)
next
  case (Suc k)
  then have lt: "i < length (m_eightBytes ee)" by simp
  let ?c = "classification (m_eightBytes ee ! i)"
  let ?s = "int (sizeInBytes (m_eightBytes ee ! i)) - (d AND 7)"
  let ?step = "copy_eightByte ?c ?s src pos g f rem mem"
  from Suc.prems(1) obtain g' f' m1 where step: "?step = Inr (g', f', m1)"
    and rest: "CopyStructToRegisters_loop ee src (Suc i) g' f' (pos + ?s) (rem - ?s) 0 m1 = Inr m'"
    by (auto simp: copy_loop_step [OF lt] split: sum.splits)
  from copy_eightByte_Inr [OF step]
  have s: "0 \<le> ?s" and g': "g' = (if ?c = SystemVClassificationTypeSSE then g else g + ?s)"
    and f': "f' = (if ?c = SystemVClassificationTypeSSE then f + 16 else f)"
    and m1: "m1 = write_mem mem (if ?c = SystemVClassificationTypeSSE then f else g)
                (take (nat ?s) (drop (nat pos) src))"
    and sse: "?c = SystemVClassificationTypeSSE \<longrightarrow> ?s = 4 \<or> ?s = 8"
    by simp_all
  have k: "int (length (m_eightBytes ee) - i) = int (length (m_eightBytes ee) - Suc i) + 1"
    using lt by simp
  have "m1 a = mem a"
  proof (cases "?c = SystemVClassificationTypeSSE")
    case True
    with sse have "int (length (take (nat ?s) (drop (nat pos) src))) \<le> 8" by auto
    with Suc.prems(3) k True show ?thesis
      unfolding m1 by (intro write_mem_outside) auto
  next
    case False
    with Suc.prems(2) show ?thesis
      unfolding m1 by (intro write_mem_outside) auto
  qed
  moreover have "a < g'" using Suc.prems(2) s g' by auto
  moreover have "a < f' \<or> f' + 16 * int (length (m_eightBytes ee) - Suc i) \<le> a"
    using Suc.prems(3) f' k by auto
  ultimately show ?case
    using Suc.hyps(1) [OF _ rest, of ] Suc.hyps(2) by simp
qed




lemma srcOffsetOf_nonneg: "0 \<le> srcOffsetOf ee i"
  by (simp add: srcOffsetOf_def)

lemma copy_loop_ok:
  assumes acc: "\<forall>j < length (m_eightBytes ee). eightByteAccepted ee gen j"
    and src: "totalSize ee \<le> int (length src)"
    and i: "i \<le> length (m_eightBytes ee)"
  shows "CopyStructToRegisters_loop ee src i (gen + genOffsetOf ee i)
           (flt + 16 * floatIndexOf ee i) (srcOffsetOf ee i) (totalSize ee - srcOffsetOf ee i) 0 mem
         = Inr (foldl (copyUnit ee src gen flt) mem [i..<length (m_eightBytes ee)])"
  using i
proof (induction "length (m_eightBytes ee) - i" arbitrary: i mem)
  case 0
  then have "i = length (m_eightBytes ee)" by simp
  then show ?case by (simp add: copy_loop_done srcOffsetOf_total)
next
  case (Suc k)
  let ?n = "length (m_eightBytes ee)"
  let ?u = "m_eightBytes ee ! i"
  let ?c = "classification ?u"
  let ?s = "int (sizeInBytes ?u)"
  let ?G = "gen + genOffsetOf ee i"
  let ?F = "flt + 16 * floatIndexOf ee i"
  from Suc.hyps(2) have lt: "i < ?n" by simp
  have next_le: "srcOffsetOf ee (Suc i) \<le> totalSize ee"
    using srcOffsetOf_mono [of "Suc i" ?n ee] lt by (simp add: srcOffsetOf_total)
  from acc lt have ok: "eightByteAccepted ee gen i" by blast
  have step: "copy_eightByte ?c ?s src (srcOffsetOf ee i) ?G ?F (totalSize ee - srcOffsetOf ee i) mem =
     Inr (if ?c = SystemVClassificationTypeSSE then ?G else ?G + ?s,
          if ?c = SystemVClassificationTypeSSE then ?F + 16 else ?F,
          write_mem mem (if ?c = SystemVClassificationTypeSSE then ?F else ?G)
            (take (nat ?s) (drop (nat (srcOffsetOf ee i)) src)))"
  proof (rule copy_eightByte_ok)
    show "0 \<le> srcOffsetOf ee i" by (rule srcOffsetOf_nonneg)
    show "srcOffsetOf ee i + ?s \<le> int (length src)"
      using next_le src by (simp add: srcOffsetOf_Suc [OF lt])
    show "?s \<le> totalSize ee - srcOffsetOf ee i"
      using next_le by (simp add: srcOffsetOf_Suc [OF lt])
    show "0 \<le> ?s" by simp
    show "?c = SystemVClassificationTypeSSE \<longrightarrow> ?s = 4 \<or> ?s = 8"
      using ok by (auto simp: eightByteAccepted_def isSSE_def Let_def)
    show "?c \<noteq> SystemVClassificationTypeSSE \<longrightarrow>
           (if ?s = 8 then (?c = SystemVClassificationTypeInteger \<or>
                            ?c = SystemVClassificationTypeIntegerReference \<or>
                            ?c = SystemVClassificationTypeIntegerByRef) \<and> 8 dvd ?G
            else ?c = SystemVClassificationTypeInteger)"
      using ok by (auto simp: eightByteAccepted_def isSSE_def isReference_def Let_def)
  qed
  have triple: "(if ?c = SystemVClassificationTypeSSE then ?G else ?G + ?s,
          if ?c = SystemVClassificationTypeSSE then ?F + 16 else ?F,
          write_mem mem (if ?c = SystemVClassificationTypeSSE then ?F else ?G)
            (take (nat ?s) (drop (nat (srcOffsetOf ee i)) src)))
      = (gen + genOffsetOf ee (Suc i), flt + 16 * floatIndexOf ee (Suc i),
         copyUnit ee src gen flt mem i)"
    by (simp add: genOffsetOf_Suc [OF lt] floatIndexOf_Suc [OF lt] copyUnit_def unitDest_def
        unitBytes_def isSSE_def)
  have upt: "[i..<?n] = i # [Suc i..<?n]" using lt by (simp add: upt_conv_Cons)
  have IH: "CopyStructToRegisters_loop ee src (Suc i) (gen + genOffsetOf ee (Suc i))
           (flt + 16 * floatIndexOf ee (Suc i)) (srcOffsetOf ee (Suc i))
           (totalSize ee - srcOffsetOf ee (Suc i)) 0 (copyUnit ee src gen flt mem i)
         = Inr (foldl (copyUnit ee src gen flt) (copyUnit ee src gen flt mem i) [Suc i..<?n])"
    using Suc.hyps(1) [of "Suc i"] Suc.hyps(2) lt by simp
  have arith: "srcOffsetOf ee i + ?s = srcOffsetOf ee (Suc i)"
    "totalSize ee - srcOffsetOf ee i - ?s = totalSize ee - srcOffsetOf ee (Suc i)"
    by (simp_all add: srcOffsetOf_Suc [OF lt])
  show ?case
    unfolding copy_loop_step [OF lt] upt
    by (simp add: step [unfolded triple] arith IH)
qed

lemma CopyStructToRegisters_eq_loop:
  assumes "IsStructPassedInRegs tb this"
    and "m_argLocDescForStructInRegs this = Some argLocDesc"
    and "m_eeClass argLocDesc = Some eeClass"
    and "0 \<le> destOffset"
  shows "CopyStructToRegisters tb this src fieldBytes destOffset mem =
     CopyStructToRegisters_loop eeClass src (nat (destOffset div 8))
       (m_base this + (GetOffsetOfArgumentRegisters tb + m_idxGenReg argLocDesc * 8) + destOffset)
       (m_base this + (GetOffsetOfFloatArgumentRegisters tb + m_idxFloatReg argLocDesc * 16))
       0 fieldBytes destOffset mem"
proof -
  from assms(4) have "c_div destOffset 8 = destOffset div 8" "0 \<le> destOffset div 8"
    by (simp_all add: c_div_nonneg)
  with assms(1-3) show ?thesis
    by (simp add: CopyStructToRegisters_def GetStructGenRegDestinationAddress_def
        GetStructFloatRegDestinationAddress_def)
qed

lemma copy_whole_value:
  assumes passed: "IsStructPassedInRegs tb this"
    and desc: "m_argLocDescForStructInRegs this = Some argLocDesc"
    and cls: "m_eeClass argLocDesc = Some eeClass"
    and gen: "genRegDest = m_base this + (GetOffsetOfArgumentRegisters tb + m_idxGenReg argLocDesc * 8)"
    and flt: "floatRegDest = m_base this +
                (GetOffsetOfFloatArgumentRegisters tb + m_idxFloatReg argLocDesc * 16)"
    and acc: "\<forall>i < length (m_eightBytes eeClass). eightByteAccepted eeClass genRegDest i"
    and total: "totalSize eeClass = fieldBytes"
    and src: "fieldBytes \<le> int (length src)"
  shows "CopyStructToRegisters tb this src fieldBytes 0 mem =
     Inr (foldl (copyUnit eeClass src genRegDest floatRegDest) mem [0..<length (m_eightBytes eeClass)])"
  using copy_loop_ok [OF acc, of src 0 floatRegDest mem] total src
  by (simp add: CopyStructToRegisters_eq_loop [OF passed desc cls] gen [symmetric] flt [symmetric])

lemma copy_whole_value_total:
  assumes passed: "IsStructPassedInRegs tb this"
    and desc: "m_argLocDescForStructInRegs this = Some argLocDesc"
    and cls: "m_eeClass argLocDesc = Some eeClass"
    and run: "CopyStructToRegisters tb this src fieldBytes 0 mem = Inr mem'"
  shows "fieldBytes = totalSize eeClass"
  using copy_loop_Inr_total [of eeClass src 0 _ _ 0 fieldBytes mem mem'] run
  by (simp add: CopyStructToRegisters_eq_loop [OF passed desc cls])

subsection \<open>Zeros and destination offsets\<close>

lemma ZeroStructInRegisters_eq:
  assumes "0 \<le> fieldBytes"
    "fieldBytes \<le> 8 * int (CLR_SYSTEMV_MAX_EIGHTBYTES_COUNT_TO_PASS_IN_REGISTERS tb)"
  shows "ZeroStructInRegisters tb this fieldBytes mem =
     CopyStructToRegisters tb this
       (replicate (8 * CLR_SYSTEMV_MAX_EIGHTBYTES_COUNT_TO_PASS_IN_REGISTERS tb) 0) fieldBytes 0 mem"
proof -
  have "fieldBytes mod 2 ^ 64 \<le> fieldBytes"
    using assms(1) by (rule zmod_le_nonneg_dividend)
  with assms(2) show ?thesis by (simp add: ZeroStructInRegisters_def)
qed

lemma CopyStructToRegisters_no_overrun:
  assumes "0 \<le> fieldBytes" "fieldBytes \<le> int (length src)"
  shows "CopyStructToRegisters tb this src fieldBytes 0 mem \<noteq> Inl SourceOverrun"
proof -
  have "CopyStructToRegisters_loop ee src 0 g f 0 fieldBytes 0 mem \<noteq> Inl SourceOverrun" for ee g f
    using assms by (intro copy_loop_no_overrun) simp_all
  then show ?thesis
    by (simp add: CopyStructToRegisters_def GetStructGenRegDestinationAddress_def
        GetStructFloatRegDestinationAddress_def c_div_def split: option.splits)
qed

lemma unitBytes_zeros:
  assumes "i < length (m_eightBytes ee)" "totalSize ee \<le> int N"
  shows "unitBytes ee (replicate N 0) i = replicate (sizeInBytes (m_eightBytes ee ! i)) 0"
proof -
  have "srcOffsetOf ee (Suc i) \<le> totalSize ee"
    using srcOffsetOf_mono [of "Suc i" "length (m_eightBytes ee)" ee] assms(1)
    by (simp add: srcOffsetOf_total)
  with assms have "srcOffsetOf ee i + int (sizeInBytes (m_eightBytes ee ! i)) \<le> int N"
    by (simp add: srcOffsetOf_Suc)
  then have "nat (srcOffsetOf ee i) + sizeInBytes (m_eightBytes ee ! i) \<le> N"
    using srcOffsetOf_nonneg [of ee i] by linarith
  then have "min (sizeInBytes (m_eightBytes ee ! i)) (N - nat (srcOffsetOf ee i))
      = sizeInBytes (m_eightBytes ee ! i)"
    by linarith
  then show ?thesis by (simp add: unitBytes_def)
qed

lemma copyUnit_zero_keeps:
  assumes "unitBytes ee src j = replicate (sizeInBytes (m_eightBytes ee ! j)) 0" "m a = 0"
  shows "copyUnit ee src gen flt m j a = 0"
proof (cases "unitDest ee gen flt j \<le> a \<and>
    a < unitDest ee gen flt j + int (sizeInBytes (m_eightBytes ee ! j))")
  case True
  then have "nat (a - unitDest ee gen flt j) < sizeInBytes (m_eightBytes ee ! j)" by linarith
  with True assms show ?thesis by (simp add: copyUnit_def write_mem_def)
next
  case False
  with assms show ?thesis by (auto simp: copyUnit_def write_mem_def)
qed

lemma copyUnit_zero_sets:
  assumes "unitBytes ee src j = replicate (sizeInBytes (m_eightBytes ee ! j)) 0"
    "k < sizeInBytes (m_eightBytes ee ! j)"
  shows "copyUnit ee src gen flt m j (unitDest ee gen flt j + int k) = 0"
  using assms by (simp add: copyUnit_def write_mem_def)

lemma foldl_copyUnit_zero:
  assumes "\<forall>j \<in> set js. unitBytes ee src j = replicate (sizeInBytes (m_eightBytes ee ! j)) 0"
    and "i \<in> set js" "k < sizeInBytes (m_eightBytes ee ! i)"
  shows "foldl (copyUnit ee src gen flt) m js (unitDest ee gen flt i + int k) = 0"
  using assms
proof (induction js rule: rev_induct)
  case Nil
  then show ?case by simp
next
  case (snoc x xs)
  show ?case
  proof (cases "i = x")
    case True
    with snoc.prems show ?thesis by (simp add: copyUnit_zero_sets)
  next
    case False
    with snoc have "foldl (copyUnit ee src gen flt) m xs (unitDest ee gen flt i + int k) = 0"
      by simp
    with snoc.prems(1) show ?thesis by (simp add: copyUnit_zero_keeps)
  qed
qed










section \<open>The descriptor and the sentinel offset\<close>

text \<open>
  C8 (as amended). The constructor accepts its arguments on \<^verbatim>\<open>UNIX_AMD64_ABI\<close> exactly
  when the sentinel offset comes with a descriptor; the converse is not required, so a
  descriptor may come with an ordinary offset. On ARM64, LoongArch64 and RISC-V every
  combination is accepted. On every other target the descriptor must be absent. In
  particular an accepted destination for which \<^verbatim>\<open>IsStructPassedInRegs\<close> holds has a
  descriptor.
\<close>

theorem ArgDestination_ctor_accepts:
  "ArgDestination_ctor tgt tb base offset desc =
     (if (tgt = UNIX_AMD64_ABI \<longrightarrow> offset = StructInRegsOffset tb \<longrightarrow> desc \<noteq> None) \<and>
         (tgt = TARGET_OTHER \<longrightarrow> desc = None)
      then Inr \<lparr>m_base = base, m_offset = offset, m_argLocDescForStructInRegs = desc\<rparr>
      else Inl AssertionFailed)
   \<and> (\<forall>this. ArgDestination_ctor UNIX_AMD64_ABI tb base offset desc = Inr this \<longrightarrow>
         IsStructPassedInRegs tb this \<longrightarrow> m_argLocDescForStructInRegs this \<noteq> None)"
  by (cases tgt) (auto simp: ArgDestination_ctor_def IsStructPassedInRegs_def)

theorem ArgDestination_ctor_accepts_witness:
  "ArgDestination_ctor UNIX_AMD64_ABI example_platform 4096 (- 2) (Some (eightByte_desc [])) =
     Inr \<lparr>m_base = 4096, m_offset = - 2,
          m_argLocDescForStructInRegs = Some (eightByte_desc [])\<rparr>
   \<and> IsStructPassedInRegs example_platform
        \<lparr>m_base = 4096, m_offset = - 2, m_argLocDescForStructInRegs = Some (eightByte_desc [])\<rparr>"
  using ArgDestination_ctor_accepts
    [of UNIX_AMD64_ABI example_platform 4096 "- 2" "Some (eightByte_desc [])"]
  by (simp add: example_platform_def IsStructPassedInRegs_def)

theorem ArgDestination_ctor_descriptor_without_sentinel:
  "ArgDestination_ctor UNIX_AMD64_ABI example_platform 4096 8 (Some (eightByte_desc [])) =
     Inr \<lparr>m_base = 4096, m_offset = 8, m_argLocDescForStructInRegs = Some (eightByte_desc [])\<rparr>
   \<and> \<not> (m_argLocDescForStructInRegs
           \<lparr>m_base = 4096, m_offset = 8, m_argLocDescForStructInRegs = Some (eightByte_desc [])\<rparr>
         \<noteq> None
        \<longleftrightarrow> m_offset
           \<lparr>m_base = 4096, m_offset = 8, m_argLocDescForStructInRegs = Some (eightByte_desc [])\<rparr>
         = StructInRegsOffset example_platform)"
  by (simp add: ArgDestination_ctor_def example_platform_def)

section \<open>A single float on RISC-V\<close>

text \<open>
  C6. \<^verbatim>\<open>CopySingleFloatToRegister\<close> reads a 4-byte value from the source. When the
  destination offset is that of a floating argument register it stores eight bytes whose
  high 32 bits are \<^verbatim>\<open>0xffffffff\<close> and whose low 32 bits are the source bits, and
  nothing outside these eight bytes changes. Otherwise it stores the four source bytes
  and nothing else: the bytes above them keep whatever they held.
\<close>

theorem CopySingleFloatToRegister_boxes:
  assumes "4 \<le> length src"
  shows "\<exists>mem'. CopySingleFloatToRegister tb this src mem = Inr mem' \<and>
     (if IsFloatArgumentRegisterOffset tb (m_offset this)
      then drop_bit 32 (fetch_UINT64 mem' (GetDestinationAddress this)) = 0xffffffff \<and>
           (ucast (fetch_UINT64 mem' (GetDestinationAddress this)) :: UINT32)
             = word_of_bytes (take 4 src) \<and>
           (\<forall>a. a < GetDestinationAddress this \<or> GetDestinationAddress this + 8 \<le> a
                \<longrightarrow> mem' a = mem a)
      else read_mem mem' (GetDestinationAddress this) 4 = take 4 src \<and>
           (\<forall>a. a < GetDestinationAddress this \<or> GetDestinationAddress this + 4 \<le> a
                \<longrightarrow> mem' a = mem a))"
proof -
  let ?v = "word_of_bytes (take 4 src) :: UINT32"
  let ?d = "GetDestinationAddress this"
  from assms have ld: "load_UINT32 src 0 = Inr ?v"
    by (simp add: load_UINT32_def read_src_def)
  show ?thesis
  proof (cases "IsFloatArgumentRegisterOffset tb (m_offset this)")
    case True
    then have run: "CopySingleFloatToRegister tb this src mem
        = Inr (store_UINT64 mem ?d (0xffffffff00000000 OR ucast ?v))"
      by (simp add: CopySingleFloatToRegister_def ld)
    have "\<forall>a. a < ?d \<or> ?d + 8 \<le> a \<longrightarrow>
        store_UINT64 mem ?d (0xffffffff00000000 OR ucast ?v) a = mem a"
      by (simp add: store_UINT64_def write_mem_outside)
    moreover have "drop_bit 32 (fetch_UINT64
        (store_UINT64 mem ?d (0xffffffff00000000 OR ucast ?v)) ?d) = 0xffffffff"
      by (simp only: fetch_store_UINT64 NanBox_high)
    moreover have "(ucast (fetch_UINT64
        (store_UINT64 mem ?d (0xffffffff00000000 OR ucast ?v)) ?d) :: UINT32) = ?v"
      by (simp only: fetch_store_UINT64 NanBox_low)
    ultimately show ?thesis using True run by simp
  next
    case False
    then have run: "CopySingleFloatToRegister tb this src mem = Inr (store_UINT32 mem ?d ?v)"
      by (simp add: CopySingleFloatToRegister_def ld)
    from assms have bs: "bytes_of_word 4 ?v = take 4 src"
      by (simp add: bytes_of_word_of_bytes)
    have "read_mem (store_UINT32 mem ?d ?v) ?d 4 = take 4 src"
      using read_mem_write_mem_same [of mem ?d "take 4 src"] assms
      by (simp add: store_UINT32_def bs)
    moreover have "\<forall>a. a < ?d \<or> ?d + 4 \<le> a \<longrightarrow> store_UINT32 mem ?d ?v a = mem a"
      by (simp add: store_UINT32_def write_mem_outside)
    ultimately show ?thesis using False run by simp
  qed
qed

theorem CopySingleFloatToRegister_boxes_witness:
  "\<exists>mem'. CopySingleFloatToRegister example_platform float_slot_dest [0, 0, 0x80, 0x3f] (\<lambda>a. 0)
            = Inr mem' \<and>
     drop_bit 32 (fetch_UINT64 mem' 3968) = 0xffffffff \<and>
     (ucast (fetch_UINT64 mem' 3968) :: UINT32) = 0x3f800000"
  using CopySingleFloatToRegister_boxes [of "[0, 0, 0x80, 0x3f]" example_platform float_slot_dest "\<lambda>a. 0"]
  by (auto simp: example_platform_def float_slot_dest_def GetDestinationAddress_def)

section \<open>Homogeneous floating aggregates on ARM64\<close>

text \<open>
  C4 (as amended). For a field width of 4, 8 or 16 bytes and a source that holds every
  field, \<^verbatim>\<open>CopyHFAStructToRegister\<close> returns, and the 16-byte floating slot of field
  \<^verbatim>\<open>i\<close> holds the field, read at \<^verbatim>\<open>i\<close> times the field width in the source,
  followed by zeros up to 16 bytes: the upper half of the slot is zero for the widths 4
  and 8 and is the upper half of the field for the width 16. Nothing outside the slots
  changes.
\<close>

theorem CopyHFAStructToRegister_slots:
  assumes desc: "m_argLocDescForStructInRegs this = Some argLocDesc"
    and fs: "m_hfaFieldSize argLocDesc = 4 \<or> m_hfaFieldSize argLocDesc = 8 \<or>
             m_hfaFieldSize argLocDesc = 16"
    and src: "int (nat (m_cFloatReg argLocDesc)) * m_hfaFieldSize argLocDesc \<le> int (length src)"
  shows "\<exists>mem'. CopyHFAStructToRegister this src fieldBytes mem = Inr mem' \<and>
     (\<forall>i < nat (m_cFloatReg argLocDesc).
        read_mem mem' (GetDestinationAddress this + 16 * int i) 16
          = take (nat (m_hfaFieldSize argLocDesc)) (drop (i * nat (m_hfaFieldSize argLocDesc)) src)
            @ replicate (16 - nat (m_hfaFieldSize argLocDesc)) 0) \<and>
     (\<forall>a. a < GetDestinationAddress this \<or>
           GetDestinationAddress this + 16 * int (nat (m_cFloatReg argLocDesc)) \<le> a
           \<longrightarrow> mem' a = mem a)"
proof -
  define n where "n = nat (m_cFloatReg argLocDesc)"
  define fs where "fs = m_hfaFieldSize argLocDesc"
  define dest where "dest = GetDestinationAddress this"
  have fs': "fs = 4 \<or> fs = 8 \<or> fs = 16" using fs by (simp add: fs_def)
  have src': "0 + int n * fs \<le> int (length src)" using src by (simp add: n_def fs_def)
  have pos: "nat (0 + int i * fs) = i * nat fs" for i
    using fs' by (auto simp: nat_mult_distrib)
  from hfa_loop [OF fs' _ src', of dest mem]
  obtain mem' where run: "CopyHFAStructToRegister_loop n fs src 0 dest mem = Inr mem'"
    and slots: "\<forall>i<n. read_mem mem' (dest + 16 * int i) 16 = hfa_slot src (nat fs) (i * nat fs)"
    and frame: "\<forall>a. a < dest \<or> dest + 16 * int n \<le> a \<longrightarrow> mem' a = mem a"
    unfolding pos by auto
  have "CopyHFAStructToRegister this src fieldBytes mem = Inr mem'"
    using run by (simp add: CopyHFAStructToRegister_def desc n_def fs_def dest_def)
  with slots frame show ?thesis
    unfolding n_def fs_def dest_def hfa_slot_def by blast
qed

theorem CopyHFAStructToRegister_slots_witness:
  "\<exists>mem'. CopyHFAStructToRegister (hfa_dest 2 4) [1, 2, 3, 4, 5, 6, 7, 8] 8 (\<lambda>a. 0xAA) = Inr mem' \<and>
     read_mem mem' 3968 16 = [1, 2, 3, 4, 0, 0, 0, 0, 0, 0, 0, 0, 0, 0, 0, 0] \<and>
     read_mem mem' 3984 16 = [5, 6, 7, 8, 0, 0, 0, 0, 0, 0, 0, 0, 0, 0, 0, 0]"
proof -
  have d: "m_argLocDescForStructInRegs (hfa_dest 2 4) =
      Some \<lparr>m_idxFloatReg = 0, m_cFloatReg = 2, m_idxGenReg = 0, m_cGenReg = 0,
            m_hfaFieldSize = 4, m_eeClass = None, m_structFields = no_fields\<rparr>"
    by (simp add: hfa_dest_def)
  from CopyHFAStructToRegister_slots [OF d, of "[1, 2, 3, 4, 5, 6, 7, 8]" 8 "\<lambda>a. 0xAA"]
  obtain mem' where run: "CopyHFAStructToRegister (hfa_dest 2 4) [1, 2, 3, 4, 5, 6, 7, 8] 8 (\<lambda>a. 0xAA) = Inr mem'"
    and slots: "\<forall>i<2. read_mem mem' (GetDestinationAddress (hfa_dest 2 4) + 16 * int i) 16
          = take 4 (drop (i * 4) [1, 2, 3, 4, 5, 6, 7, 8]) @ replicate 12 0"
    by auto
  from slots [rule_format, of 0] slots [rule_format, of 1] run show ?thesis
    by (simp add: GetDestinationAddress_def hfa_dest_def numeral_eq_Suc)
qed

theorem CopyHFAStructToRegister_upper_half_counterexample:
  "map_sum id (\<lambda>m. read_mem m 3976 8)
     (CopyHFAStructToRegister (hfa_dest 1 16)
        [1, 2, 3, 4, 5, 6, 7, 8, 9, 10, 11, 12, 13, 14, 15, 16] 16 (\<lambda>a. 0xAA))
     = Inr [9, 10, 11, 12, 13, 14, 15, 16]
   \<and> map_sum id (\<lambda>m. read_mem m 3976 8)
     (CopyHFAStructToRegister (hfa_dest 1 8) [1, 2, 3, 4, 5, 6, 7, 8] 8 (\<lambda>a. 0xAA))
     = Inr [0, 0, 0, 0, 0, 0, 0, 0]"
  by code_simp

section \<open>Split hardware-floating composites on LoongArch64 and RISC-V\<close>






section \<open>The empty layout\<close>

text \<open>
  C9. For a layout without eightbytes and a size of zero bytes, \<^verbatim>\<open>CopyStructToRegisters\<close>
  (at any destination offset that is not negative) returns the memory as it was, and
  \<^verbatim>\<open>ReportPointersFromStructInRegisters\<close> returns the collector's state as it was,
  whatever the callback: neither loop runs, and the final assertion
  \<^verbatim>\<open>remainingBytes == 0\<close> holds in both.
\<close>

theorem empty_composite:
  assumes "IsStructPassedInRegs tb this"
    and "m_argLocDescForStructInRegs this = Some argLocDesc"
    and "m_eeClass argLocDesc = Some eeClass"
    and "GetNumberEightBytes eeClass = 0"
    and "0 \<le> destOffset"
  shows "CopyStructToRegisters tb this src 0 destOffset mem = Inr mem \<and>
         ReportPointersFromStructInRegisters tb this fn sc 0 g = Inr g"
proof -
  from assms(5) have "0 \<le> c_div destOffset 8"
    by (simp add: c_div_nonneg)
  with assms show ?thesis
    by (simp add: CopyStructToRegisters_def ReportPointersFromStructInRegisters_def
        GetStructGenRegDestinationAddress_def GetStructFloatRegDestinationAddress_def
        CopyStructToRegisters_loop.simps ReportPointersFromStructInRegisters_loop.simps)
qed

theorem empty_composite_witness:
  "CopyStructToRegisters example_platform empty_dest [] 0 0 (\<lambda>a. 0xAA) = Inr (\<lambda>a. 0xAA) \<and>
   ReportPointersFromStructInRegisters example_platform empty_dest
     (\<lambda>a sc f calls. calls @ [(a, f)]) () 0 [] = Inr []"
  using empty_composite [of example_platform empty_dest "eightByte_desc []" "\<lparr>m_eightBytes = []\<rparr>" 0
     "[]" "\<lambda>a. 0xAA" "\<lambda>a sc f calls. calls @ [(a, f)]" "()" "[]"]
  by (simp add: IsStructPassedInRegs_def example_platform_def empty_dest_def eightByte_desc_def
      GetNumberEightBytes_def)

section \<open>Root reporting\<close>

text \<open>
  C1. Let the destination be a struct passed in registers whose reference eightbytes
  (object references and byrefs) have size 8 and lie at 8-aligned general-purpose slots,
  as the code asserts. Then \<^verbatim>\<open>ReportPointersFromStructInRegisters\<close> returns exactly
  when the sizes of the units sum to \<^verbatim>\<open>fieldBytes\<close> (otherwise an assertion fails), and
  its effect is that of applying the callback to the reference units and to no other
  unit, in the order of their indices, each at the address of its slot, with
  \<^verbatim>\<open>GC_CALL_INTERIOR\<close> for a byref and no flag for an object reference. The number of
  calls is the number of reference units, and the addresses of the calls ascend strictly.
  Scenario B (an Integer unit, then an object reference, 16 bytes) is the instance below:
  one call, at the second slot, without flags.
\<close>

theorem ReportPointersFromStructInRegisters_calls:
  assumes passed: "IsStructPassedInRegs tb this"
    and desc: "m_argLocDescForStructInRegs this = Some argLocDesc"
    and cls: "m_eeClass argLocDesc = Some eeClass"
    and gen: "genRegDest = m_base this + (GetOffsetOfArgumentRegisters tb + m_idxGenReg argLocDesc * 8)"
    and refs: "\<forall>i < length (m_eightBytes eeClass). isReference (m_eightBytes eeClass ! i) \<longrightarrow>
            sizeInBytes (m_eightBytes eeClass ! i) = 8 \<and> 8 dvd (genRegDest + genOffsetOf eeClass i)"
  shows "ReportPointersFromStructInRegisters tb this fn sc fieldBytes g =
           (if totalSize eeClass = fieldBytes
            then Inr (foldl (\<lambda>g (a, flags). fn a sc flags g) g (referenceSlots tb eeClass genRegDest))
            else Inl AssertionFailed)
       \<and> length (referenceSlots tb eeClass genRegDest) = length (filter isReference (m_eightBytes eeClass))
       \<and> sorted_wrt (<) (map fst (referenceSlots tb eeClass genRegDest))"
proof -
  have "ReportPointersFromStructInRegisters tb this fn sc fieldBytes g =
      ReportPointersFromStructInRegisters_loop tb eeClass fn sc 0 (genRegDest + genOffsetOf eeClass 0)
        fieldBytes g"
    using passed desc cls gen
    by (simp add: ReportPointersFromStructInRegisters_def GetStructGenRegDestinationAddress_def)
  also have "\<dots> = (if fieldBytes = totalSize eeClass - srcOffsetOf eeClass 0
            then Inr (foldl (\<lambda>g (a, flags). fn a sc flags g) g (referenceSlots tb eeClass genRegDest))
            else Inl AssertionFailed)"
    unfolding referenceSlots_def by (rule report_loop [OF refs]) simp
  finally have run: "ReportPointersFromStructInRegisters tb this fn sc fieldBytes g =
           (if totalSize eeClass = fieldBytes
            then Inr (foldl (\<lambda>g (a, flags). fn a sc flags g) g (referenceSlots tb eeClass genRegDest))
            else Inl AssertionFailed)"
    by (simp add: eq_commute)
  have "length (referenceSlots tb eeClass genRegDest) = length (filter isReference (m_eightBytes eeClass))"
    by (simp add: referenceSlots_def length_filter_index)
  with run referenceSlots_ascending [OF refs] show ?thesis by blast
qed

theorem ReportPointersFromStructInRegisters_calls_witness:
  "ReportPointersFromStructInRegisters example_platform
     (two_unit_dest SystemVClassificationTypeInteger 8 SystemVClassificationTypeIntegerReference 8)
     (\<lambda>a sc flags calls. calls @ [(a, flags)]) () 16 [] = Inr [(4104, 0)]"
proof -
  define ee where "ee = \<lparr>m_eightBytes = [\<lparr>classification = SystemVClassificationTypeInteger, sizeInBytes = 8\<rparr>,
          \<lparr>classification = SystemVClassificationTypeIntegerReference, sizeInBytes = 8\<rparr>]\<rparr>"
  define this where "this = two_unit_dest SystemVClassificationTypeInteger 8 SystemVClassificationTypeIntegerReference 8"
  have units: "m_eightBytes ee = [\<lparr>classification = SystemVClassificationTypeInteger, sizeInBytes = 8\<rparr>,
          \<lparr>classification = SystemVClassificationTypeIntegerReference, sizeInBytes = 8\<rparr>]"
    by (simp add: ee_def)
  have passed: "IsStructPassedInRegs example_platform this"
    by (simp add: IsStructPassedInRegs_def example_platform_def this_def two_unit_dest_def)
  have desc: "m_argLocDescForStructInRegs this = Some (eightByte_desc (m_eightBytes ee))"
    by (simp add: this_def two_unit_dest_def units)
  have cls: "m_eeClass (eightByte_desc (m_eightBytes ee)) = Some ee"
    by (simp add: eightByte_desc_def ee_def)
  have gen: "4096 = m_base this + (GetOffsetOfArgumentRegisters example_platform
       + m_idxGenReg (eightByte_desc (m_eightBytes ee)) * 8)"
    by (simp add: this_def two_unit_dest_def example_platform_def eightByte_desc_def)
  have off: "genOffsetOf ee (Suc 0) = 8"
    by (simp add: genOffsetOf_def units isSSE_def)
  have refs: "\<forall>i < length (m_eightBytes ee). isReference (m_eightBytes ee ! i) \<longrightarrow>
            sizeInBytes (m_eightBytes ee ! i) = 8 \<and> 8 dvd (4096 + genOffsetOf ee i)"
    by (simp add: units less_Suc_eq isReference_def off)
  have slots: "referenceSlots example_platform ee 4096 = [(4104, 0)]"
    by (simp add: referenceSlots_def units isReference_def off upt_rec)
  have total: "totalSize ee = 16" by (simp add: totalSize_def units)
  from ReportPointersFromStructInRegisters_calls [OF passed desc cls gen refs,
      of "\<lambda>a sc flags calls. calls @ [(a, flags)]" "()" 16 "[]"]
  show ?thesis unfolding slots total this_def by simp
qed

section \<open>Copying a whole value by eightbytes\<close>

text \<open>
  C2 (as amended). Let the destination be a struct passed in registers, let every unit
  pass the assertions of the loop body (an SSE unit has 4 or 8 bytes; a unit of 8 bytes
  that is not SSE is an Integer or a reference and its slot is 8-aligned; any other unit
  is an Integer, of any size), let the sizes of the units sum to \<^verbatim>\<open>fieldBytes\<close> and let
  the source hold that many bytes. Then \<^verbatim>\<open>CopyStructToRegisters\<close> with destination
  offset 0 returns the memory in which, unit after unit in the order of the layout, the
  bytes of the unit (as many as its size, read where the sizes of the earlier units end)
  have been written to the next floating register, 16 bytes after the previous one, for
  an SSE unit, and else to the general-purpose registers, right after the previous unit
  that is not SSE. And whenever the call returns at all, the size it was given is the sum
  of the sizes of the units.
\<close>

theorem CopyStructToRegisters_eightbytes:
  assumes passed: "IsStructPassedInRegs tb this"
    and desc: "m_argLocDescForStructInRegs this = Some argLocDesc"
    and cls: "m_eeClass argLocDesc = Some eeClass"
    and gen: "genRegDest = m_base this + (GetOffsetOfArgumentRegisters tb + m_idxGenReg argLocDesc * 8)"
    and flt: "floatRegDest = m_base this +
                (GetOffsetOfFloatArgumentRegisters tb + m_idxFloatReg argLocDesc * 16)"
    and acc: "\<forall>i < length (m_eightBytes eeClass). eightByteAccepted eeClass genRegDest i"
    and total: "totalSize eeClass = fieldBytes"
    and src: "fieldBytes \<le> int (length src)"
  shows "CopyStructToRegisters tb this src fieldBytes 0 mem =
           Inr (foldl (copyUnit eeClass src genRegDest floatRegDest) mem
                  [0..<length (m_eightBytes eeClass)])
       \<and> (\<forall>size mem'. CopyStructToRegisters tb this src size 0 mem = Inr mem' \<longrightarrow>
             size = totalSize eeClass)"
  using copy_whole_value [OF assms] copy_whole_value_total [OF passed desc cls] by blast

theorem CopyStructToRegisters_eightbytes_witness:
  "\<exists>mem'. CopyStructToRegisters example_platform
      (two_unit_dest SystemVClassificationTypeInteger 8 SystemVClassificationTypeSSE 4)
      [1, 2, 3, 4, 5, 6, 7, 8, 9, 10, 11, 12] 12 0 (\<lambda>a. 0) = Inr mem' \<and>
     read_mem mem' 4096 8 = [1, 2, 3, 4, 5, 6, 7, 8] \<and>
     read_mem mem' 3968 8 = [9, 10, 11, 12, 0, 0, 0, 0]"
proof -
  define ee where "ee = \<lparr>m_eightBytes = [\<lparr>classification = SystemVClassificationTypeInteger, sizeInBytes = 8\<rparr>,
          \<lparr>classification = SystemVClassificationTypeSSE, sizeInBytes = 4\<rparr>]\<rparr>"
  define this where "this = two_unit_dest SystemVClassificationTypeInteger 8 SystemVClassificationTypeSSE 4"
  define src :: "byte list" where "src = [1, 2, 3, 4, 5, 6, 7, 8, 9, 10, 11, 12]"
  have units: "m_eightBytes ee = [\<lparr>classification = SystemVClassificationTypeInteger, sizeInBytes = 8\<rparr>,
          \<lparr>classification = SystemVClassificationTypeSSE, sizeInBytes = 4\<rparr>]"
    by (simp add: ee_def)
  have passed: "IsStructPassedInRegs example_platform this"
    by (simp add: IsStructPassedInRegs_def example_platform_def this_def two_unit_dest_def)
  have desc: "m_argLocDescForStructInRegs this = Some (eightByte_desc (m_eightBytes ee))"
    by (simp add: this_def two_unit_dest_def units)
  have cls: "m_eeClass (eightByte_desc (m_eightBytes ee)) = Some ee"
    by (simp add: eightByte_desc_def ee_def)
  have gen: "4096 = m_base this + (GetOffsetOfArgumentRegisters example_platform
       + m_idxGenReg (eightByte_desc (m_eightBytes ee)) * 8)"
    by (simp add: this_def two_unit_dest_def example_platform_def eightByte_desc_def)
  have flt: "3968 = m_base this + (GetOffsetOfFloatArgumentRegisters example_platform
       + m_idxFloatReg (eightByte_desc (m_eightBytes ee)) * 16)"
    by (simp add: this_def two_unit_dest_def example_platform_def eightByte_desc_def)
  have acc: "\<forall>i < length (m_eightBytes ee). eightByteAccepted ee 4096 i"
    by (simp add: units less_Suc_eq eightByteAccepted_def isSSE_def genOffsetOf_def)
  have total: "totalSize ee = 12" by (simp add: totalSize_def units)
  have src: "12 \<le> int (length src)" by (simp add: src_def)
  have res: "read_mem (foldl (copyUnit ee src 4096 3968) (\<lambda>a. 0) [0..<length (m_eightBytes ee)]) 4096 8
       = [1, 2, 3, 4, 5, 6, 7, 8]
     \<and> read_mem (foldl (copyUnit ee src 4096 3968) (\<lambda>a. 0) [0..<length (m_eightBytes ee)]) 3968 8
       = [9, 10, 11, 12, 0, 0, 0, 0]"
    unfolding ee_def src_def by code_simp
  from CopyStructToRegisters_eightbytes [OF passed desc cls gen flt acc total src, of "\<lambda>a. 0"] res
  show ?thesis unfolding this_def src_def by blast
qed

theorem CopyStructToRegisters_integer_unit_counterexample:
  "map_sum id (\<lambda>m. read_mem m 4104 4)
     (CopyStructToRegisters example_platform
        (two_unit_dest SystemVClassificationTypeInteger 8 SystemVClassificationTypeInteger 2)
        (replicate 16 0xAA) 10 0 (\<lambda>a. 0))
     = Inr [0xAA, 0xAA, 0, 0]
   \<and> read_src (replicate 16 0xAA) 8 4 = Inr [0xAA, 0xAA, 0xAA, 0xAA]"
  by code_simp

section \<open>Copying at a destination offset\<close>





section \<open>Zeroing a struct in registers\<close>

text \<open>
  C10. \<^verbatim>\<open>ZeroStructInRegisters\<close> fails its assertion when the size, read as a
  \<^verbatim>\<open>size_t\<close>, exceeds the eight bytes times
  \<^verbatim>\<open>CLR_SYSTEMV_MAX_EIGHTBYTES_COUNT_TO_PASS_IN_REGISTERS\<close> of the zero buffer. For a size
  within the buffer it is \<^verbatim>\<open>CopyStructToRegisters\<close> from the buffer of zeros with
  destination offset 0, and no read of that copy leaves the buffer.
\<close>

theorem ZeroStructInRegisters_buffer:
  "(8 * int (CLR_SYSTEMV_MAX_EIGHTBYTES_COUNT_TO_PASS_IN_REGISTERS tb) < fieldBytes mod 2 ^ 64 \<longrightarrow>
      ZeroStructInRegisters tb this fieldBytes mem = Inl AssertionFailed) \<and>
   (0 \<le> fieldBytes \<and>
    fieldBytes \<le> 8 * int (CLR_SYSTEMV_MAX_EIGHTBYTES_COUNT_TO_PASS_IN_REGISTERS tb) \<longrightarrow>
      ZeroStructInRegisters tb this fieldBytes mem =
        CopyStructToRegisters tb this
          (replicate (8 * CLR_SYSTEMV_MAX_EIGHTBYTES_COUNT_TO_PASS_IN_REGISTERS tb) 0)
          fieldBytes 0 mem \<and>
      ZeroStructInRegisters tb this fieldBytes mem \<noteq> Inl SourceOverrun)"
proof (intro conjI impI)
  assume "8 * int (CLR_SYSTEMV_MAX_EIGHTBYTES_COUNT_TO_PASS_IN_REGISTERS tb) < fieldBytes mod 2 ^ 64"
  then show "ZeroStructInRegisters tb this fieldBytes mem = Inl AssertionFailed"
    by (simp add: ZeroStructInRegisters_def)
next
  assume b: "0 \<le> fieldBytes \<and>
    fieldBytes \<le> 8 * int (CLR_SYSTEMV_MAX_EIGHTBYTES_COUNT_TO_PASS_IN_REGISTERS tb)"
  then show eq: "ZeroStructInRegisters tb this fieldBytes mem =
        CopyStructToRegisters tb this
          (replicate (8 * CLR_SYSTEMV_MAX_EIGHTBYTES_COUNT_TO_PASS_IN_REGISTERS tb) 0)
          fieldBytes 0 mem"
    by (simp add: ZeroStructInRegisters_eq)
  from b show "ZeroStructInRegisters tb this fieldBytes mem \<noteq> Inl SourceOverrun"
    unfolding eq by (intro CopyStructToRegisters_no_overrun) simp_all
qed

theorem ZeroStructInRegisters_buffer_witness:
  "ZeroStructInRegisters example_platform nullable_int_dest 17 (\<lambda>a. 0xAA) = Inl AssertionFailed \<and>
   ZeroStructInRegisters example_platform nullable_int_dest 8 (\<lambda>a. 0xAA) =
     CopyStructToRegisters example_platform nullable_int_dest (replicate 16 0) 8 0 (\<lambda>a. 0xAA) \<and>
   ZeroStructInRegisters example_platform nullable_int_dest 8 (\<lambda>a. 0xAA) \<noteq> Inl SourceOverrun"
proof -
  have big: "8 * int (CLR_SYSTEMV_MAX_EIGHTBYTES_COUNT_TO_PASS_IN_REGISTERS example_platform)
      < 17 mod 2 ^ 64"
    by (simp add: example_platform_def)
  have fits: "(0::int) \<le> 8 \<and>
      8 \<le> 8 * int (CLR_SYSTEMV_MAX_EIGHTBYTES_COUNT_TO_PASS_IN_REGISTERS example_platform)"
    by (simp add: example_platform_def)
  have len: "8 * CLR_SYSTEMV_MAX_EIGHTBYTES_COUNT_TO_PASS_IN_REGISTERS example_platform = 16"
    by (simp add: example_platform_def)
  from ZeroStructInRegisters_buffer [of example_platform 17 nullable_int_dest "\<lambda>a. 0xAA",
      THEN conjunct1, rule_format, OF big]
    ZeroStructInRegisters_buffer [of example_platform 8 nullable_int_dest "\<lambda>a. 0xAA",
      THEN conjunct2, rule_format, OF fits]
  show ?thesis unfolding len by blast
qed


text \<open>
  C7. Let the destination be a struct passed in registers, wherever its registers are,
  whose units pass the assertions of the copy loop and whose sizes sum to
  \<^verbatim>\<open>fieldBytes\<close>, within the zero buffer. Then \<^verbatim>\<open>ZeroStructInRegisters\<close> returns, with
  the memory that \<^verbatim>\<open>CopyStructToRegisters\<close> returns for a source of zeros and
  destination offset 0, and in it every byte of every unit, at the unit's place in the
  registers, is zero.
\<close>

theorem ZeroStructInRegisters_zero:
  assumes passed: "IsStructPassedInRegs tb this"
    and desc: "m_argLocDescForStructInRegs this = Some argLocDesc"
    and cls: "m_eeClass argLocDesc = Some eeClass"
    and gen: "genRegDest = m_base this + (GetOffsetOfArgumentRegisters tb + m_idxGenReg argLocDesc * 8)"
    and flt: "floatRegDest = m_base this +
                (GetOffsetOfFloatArgumentRegisters tb + m_idxFloatReg argLocDesc * 16)"
    and acc: "\<forall>i < length (m_eightBytes eeClass). eightByteAccepted eeClass genRegDest i"
    and total: "totalSize eeClass = fieldBytes"
    and bound: "fieldBytes \<le> 8 * int (CLR_SYSTEMV_MAX_EIGHTBYTES_COUNT_TO_PASS_IN_REGISTERS tb)"
  shows "\<exists>mem'. ZeroStructInRegisters tb this fieldBytes mem = Inr mem' \<and>
     CopyStructToRegisters tb this
       (replicate (8 * CLR_SYSTEMV_MAX_EIGHTBYTES_COUNT_TO_PASS_IN_REGISTERS tb) 0) fieldBytes 0 mem
       = Inr mem' \<and>
     (\<forall>i < length (m_eightBytes eeClass). \<forall>k < sizeInBytes (m_eightBytes eeClass ! i).
        mem' (unitDest eeClass genRegDest floatRegDest i + int k) = 0)"
proof -
  let ?N = "8 * CLR_SYSTEMV_MAX_EIGHTBYTES_COUNT_TO_PASS_IN_REGISTERS tb"
  let ?zeros = "replicate ?N (0 :: byte)"
  let ?mem' = "foldl (copyUnit eeClass ?zeros genRegDest floatRegDest) mem
                 [0..<length (m_eightBytes eeClass)]"
  have nonneg: "0 \<le> fieldBytes" using total by (simp add: totalSize_def)
  have fits: "fieldBytes \<le> int (length ?zeros)" using bound by simp
  have copy: "CopyStructToRegisters tb this ?zeros fieldBytes 0 mem = Inr ?mem'"
    by (rule copy_whole_value [OF passed desc cls gen flt acc total fits])
  then have zero: "ZeroStructInRegisters tb this fieldBytes mem = Inr ?mem'"
    using ZeroStructInRegisters_eq [OF nonneg bound] by simp
  have "\<forall>j \<in> set [0..<length (m_eightBytes eeClass)].
      unitBytes eeClass ?zeros j = replicate (sizeInBytes (m_eightBytes eeClass ! j)) 0"
    using total bound by (auto intro!: unitBytes_zeros)
  then have "\<forall>i < length (m_eightBytes eeClass). \<forall>k < sizeInBytes (m_eightBytes eeClass ! i).
        ?mem' (unitDest eeClass genRegDest floatRegDest i + int k) = 0"
    by (auto intro!: foldl_copyUnit_zero)
  with copy zero show ?thesis by blast
qed

theorem ZeroStructInRegisters_zero_witness:
  "\<exists>mem'. ZeroStructInRegisters example_platform
      (two_unit_dest SystemVClassificationTypeInteger 8 SystemVClassificationTypeSSE 4)
      12 (\<lambda>a. 0xAA) = Inr mem' \<and>
     mem' 4096 = 0 \<and> mem' 4103 = 0 \<and> mem' 3968 = 0 \<and> mem' 3971 = 0"
proof -
  define ee where "ee = \<lparr>m_eightBytes = [\<lparr>classification = SystemVClassificationTypeInteger, sizeInBytes = 8\<rparr>,
          \<lparr>classification = SystemVClassificationTypeSSE, sizeInBytes = 4\<rparr>]\<rparr>"
  define this where "this = two_unit_dest SystemVClassificationTypeInteger 8 SystemVClassificationTypeSSE 4"
  have units: "m_eightBytes ee = [\<lparr>classification = SystemVClassificationTypeInteger, sizeInBytes = 8\<rparr>,
          \<lparr>classification = SystemVClassificationTypeSSE, sizeInBytes = 4\<rparr>]"
    by (simp add: ee_def)
  have passed: "IsStructPassedInRegs example_platform this"
    by (simp add: IsStructPassedInRegs_def example_platform_def this_def two_unit_dest_def)
  have desc: "m_argLocDescForStructInRegs this = Some (eightByte_desc (m_eightBytes ee))"
    by (simp add: this_def two_unit_dest_def units)
  have cls: "m_eeClass (eightByte_desc (m_eightBytes ee)) = Some ee"
    by (simp add: eightByte_desc_def ee_def)
  have gen: "4096 = m_base this + (GetOffsetOfArgumentRegisters example_platform
       + m_idxGenReg (eightByte_desc (m_eightBytes ee)) * 8)"
    by (simp add: this_def two_unit_dest_def example_platform_def eightByte_desc_def)
  have flt: "3968 = m_base this + (GetOffsetOfFloatArgumentRegisters example_platform
       + m_idxFloatReg (eightByte_desc (m_eightBytes ee)) * 16)"
    by (simp add: this_def two_unit_dest_def example_platform_def eightByte_desc_def)
  have acc: "\<forall>i < length (m_eightBytes ee). eightByteAccepted ee 4096 i"
    by (simp add: units less_Suc_eq eightByteAccepted_def isSSE_def genOffsetOf_def)
  have total: "totalSize ee = 12" by (simp add: totalSize_def units)
  have bound: "12 \<le> 8 * int (CLR_SYSTEMV_MAX_EIGHTBYTES_COUNT_TO_PASS_IN_REGISTERS example_platform)"
    by (simp add: example_platform_def)
  have dest: "unitDest ee 4096 3968 0 = 4096" "unitDest ee 4096 3968 (Suc 0) = 3968"
    by (simp_all add: unitDest_def units isSSE_def genOffsetOf_def floatIndexOf_def)
  from ZeroStructInRegisters_zero [OF passed desc cls gen flt acc total bound, of "\<lambda>a. 0xAA"]
  obtain mem' where run: "ZeroStructInRegisters example_platform this 12 (\<lambda>a. 0xAA) = Inr mem'"
    and z: "\<forall>i < length (m_eightBytes ee). \<forall>k < sizeInBytes (m_eightBytes ee ! i).
        mem' (unitDest ee 4096 3968 i + int k) = 0"
    by blast
  from z [rule_format, of 0 0] z [rule_format, of 0 7] z [rule_format, of "Suc 0" 0]
    z [rule_format, of "Suc 0" 3]
  have "mem' 4096 = 0" "mem' 4103 = 0" "mem' 3968 = 0" "mem' 3971 = 0"
    by (simp_all add: units dest)
  with run show ?thesis unfolding this_def by blast
qed

end
